theory Spec2Isabelle
  imports Complex_Main "HOL-Library.AList"
begin

section \<open>SecurityManager: the request rate limiter\<close>








section \<open>SocketController: data model\<close>

text \<open>
  The types follow \<^verbatim>\<open>types/index.ts\<close> and the interfaces at the head of the controller.
  Record fields carry a prefix because several interfaces share field names
  (\<^verbatim>\<open>id\<close>, \<^verbatim>\<open>status\<close>, \<^verbatim>\<open>error\<close>, \<^verbatim>\<open>lastActivity\<close>). Dates are milliseconds as \<^typ>\<open>int\<close>.
  Optional fields are \<^typ>\<open>'a option\<close>. Fields of \<^verbatim>\<open>BrowserCommand\<close> that the controller
  never reads (timeout, scrollOptions, waitCondition, options) are left out.
\<close>

datatype action = Navigate | Click | Type | Screenshot | Scroll | Wait | Extract | Evaluate

record BrowserCommand =
  action :: action
  selector :: "string option"
  cmd_value :: "string option"
  url :: "string option"

record BrowserResponse =
  br_success :: bool
  br_data :: "string option"
  br_error :: "string option"

datatype ErrorCode =
    BROWSER_NOT_FOUND | BROWSER_INIT_FAILED | COMMAND_EXECUTION_FAILED | AI_PARSING_FAILED
  | INVALID_INPUT | TIMEOUT | PERMISSION_DENIED | SERVER_ERROR | NETWORK_ERROR | VALIDATION_ERROR

datatype browser_status = Initializing | Ready | Busy | ErrorStatus | Closed

datatype execution_status = Pending | Running | Completed | Failed | Cancelled

record error_info =
  err_message :: string
  err_code :: ErrorCode
  err_timestamp :: int

record ClientSession =
  cs_id :: string
  cs_socketId :: string
  cs_clientIp :: string
  cs_connectedAt :: int
  cs_lastActivity :: int
  cs_commandCount :: int

record BrowserInstanceState =
  bi_id :: string
  bi_socketId :: string
  bi_status :: browser_status
  bi_currentUrl :: "string option"
  bi_pageTitle :: "string option"
  bi_createdAt :: int
  bi_lastActivity :: int
  bi_currentCommand :: "BrowserCommand option"
  bi_error :: "error_info option"

record ExecutionContext =
  ex_id :: string
  ex_sessionId :: string
  ex_userInput :: string
  ex_commands :: "BrowserCommand list"
  ex_currentIndex :: nat
  ex_startTime :: int
  ex_results :: "BrowserResponse list"
  ex_status :: execution_status

text \<open>
  What the controller does to the outside world, in the order it does it: events emitted on a
  socket (tagged with the socket id), calls of the browser service and of the parser, and
  \<^verbatim>\<open>socket.disconnect(true)\<close>. The Korean
  \<^verbatim>\<open>currentStep\<close> texts of \<^verbatim>\<open>command_progress\<close> are the constructors of \<open>step_label\<close>; the
  one for a running command carries the command's action, as the template string does.
  The payload of \<^verbatim>\<open>command_result\<close> is the record \<open>CommandResult\<close>: the success payload has
  \<^verbatim>\<open>data\<close> and no \<^verbatim>\<open>error\<close>, the failure payload has \<^verbatim>\<open>error\<close> and no \<^verbatim>\<open>data\<close>.
\<close>

datatype progress_status = parsing | executing | completed

datatype step_label = StepParsing | StepExecuting action | StepCompleted

record CommandResult =
  cr_success :: bool
  cr_data :: "BrowserResponse list option"
  cr_error :: "string option"
  cr_executionTime :: int

datatype event =
    command_progress progress_status nat step_label
  | command_result CommandResult
  | screenshot_update string int
  | browser_status browser_status
  | error_event string ErrorCode "string option"

datatype service_call =
    executeCommand BrowserCommand | takeScreenshot | getCurrentUrl | getPageTitle
  | resetBrowser | cleanup | parseCommand string

datatype effect = Emit string event | Service service_call | Disconnect string

record connection_stats =
  totalConnections :: int
  activeConnections :: int
  totalCommands :: int
  failedCommands :: int

text \<open>
  The controller's state. The three \<^verbatim>\<open>Map\<close>s are association lists in insertion order
  (\<^verbatim>\<open>get\<close> is \<^const>\<open>map_of\<close>, \<^verbatim>\<open>set\<close> is \<^const>\<open>AList.update\<close>, \<^verbatim>\<open>delete\<close> is
  \<^const>\<open>AList.delete\<close>). Session and browser-state objects are only reached through their
  maps, and an entry is only ever inserted when a client connects, under the fresh session id
  that \<^verbatim>\<open>uuidv4()\<close> returns; so the maps hold the objects by value, and a write through a
  reference taken earlier is a write to the entry if it is still there. Execution objects are written after they have left
  the queue (the handler keeps its reference), so they live in the store \<open>executions\<close>, an
  object's address being its index, and the queue maps an execution id to an address.
  \<open>clock\<close> is what \<^verbatim>\<open>Date.now()\<close> reads; \<open>sessionTimeout\<close> is
  \<^verbatim>\<open>config.security.sessionTimeout\<close>. The logger is not modelled (only the evaluation of its arguments, where that can throw), nor is
  \<^verbatim>\<open>averageExecutionTime\<close> (a floating-point mean that nothing reads back).
\<close>

record SocketController =
  clientSessions :: "(string \<times> ClientSession) list"
  browserInstances :: "(string \<times> BrowserInstanceState) list"
  executionQueue :: "(string \<times> nat) list"
  executions :: "ExecutionContext list"
  connectionStats :: connection_stats
  trace :: "effect list"
  clock :: int
  sessionTimeout :: int

text \<open>
  A value thrown in JavaScript: an \<^verbatim>\<open>Error\<close> with its message, or anything else. An awaited
  call of a collaborator settles at some time, with a value or with a thrown value.
\<close>

datatype thrown = Error string | NonError

datatype 'a settled = Resolved int 'a | Rejected int thrown

fun settled_at :: "'a settled \<Rightarrow> int" where
  "settled_at (Resolved t v) = t"
| "settled_at (Rejected t e) = t"

definition emit :: "string \<Rightarrow> event \<Rightarrow> SocketController \<Rightarrow> SocketController" where
  "emit socketId ev s = s\<lparr>trace := trace s @ [Emit socketId ev]\<rparr>"

definition call_service :: "service_call \<Rightarrow> SocketController \<Rightarrow> SocketController" where
  "call_service c s = s\<lparr>trace := trace s @ [Service c]\<rparr>"

definition upd_browser ::
  "string \<Rightarrow> (BrowserInstanceState \<Rightarrow> BrowserInstanceState) \<Rightarrow> SocketController \<Rightarrow> SocketController" where
  "upd_browser sessionId f s =
     s\<lparr>browserInstances := AList.map_entry sessionId f (browserInstances s)\<rparr>"

definition upd_session ::
  "string \<Rightarrow> (ClientSession \<Rightarrow> ClientSession) \<Rightarrow> SocketController \<Rightarrow> SocketController" where
  "upd_session sessionId f s =
     s\<lparr>clientSessions := AList.map_entry sessionId f (clientSessions s)\<rparr>"

definition upd_execution ::
  "nat \<Rightarrow> (ExecutionContext \<Rightarrow> ExecutionContext) \<Rightarrow> SocketController \<Rightarrow> SocketController" where
  "upd_execution a f s = s\<lparr>executions := (executions s)[a := f (executions s ! a)]\<rparr>"

text \<open>\<^verbatim>\<open>e instanceof Error ? e.message : dflt\<close>\<close>

fun message_or :: "string \<Rightarrow> thrown \<Rightarrow> string" where
  "message_or dflt (Error m) = m"
| "message_or dflt NonError = dflt"

text \<open>\<^verbatim>\<open>x || dflt\<close> for an optional string: undefined and the empty string give the default.\<close>

fun or_default :: "string option \<Rightarrow> string \<Rightarrow> string" where
  "or_default None dflt = dflt"
| "or_default (Some m) dflt = (if m = [] then dflt else m)"

section \<open>SocketController: connecting\<close>

text \<open>
  The controller as the constructor leaves it, for a given session timeout.
\<close>

definition new_controller :: "int \<Rightarrow> SocketController" where
  "new_controller timeout =
     \<lparr>clientSessions = [], browserInstances = [], executionQueue = [], executions = [],
      connectionStats = \<lparr>totalConnections = 0, activeConnections = 0,
                          totalCommands = 0, failedCommands = 0\<rparr>,
      trace = [], clock = 0, sessionTimeout = timeout\<rparr>"

text \<open>
  \<^verbatim>\<open>initializeBrowserInstance\<close> and \<^verbatim>\<open>handleConnection\<close>. \<open>sessionId\<close> is the id that
  \<^verbatim>\<open>uuidv4()\<close> returns, \<open>rate\<close> is how the awaited rate-limit check of the origin settles (its
  \<^verbatim>\<open>allowed\<close> flag) and \<open>init\<close> how \<^verbatim>\<open>browserService.initializeBrowser()\<close> settles. The event
  handlers of the socket, the disconnect handler among them, are registered only after the
  browser instance has been initialised.
\<close>

definition initializeBrowserInstance ::
  "string \<Rightarrow> string \<Rightarrow> unit settled \<Rightarrow> SocketController \<Rightarrow> thrown option \<times> SocketController" where
  "initializeBrowserInstance sessionId socketId init s =
     (let browserState = \<lparr>bi_id = sessionId, bi_socketId = socketId, bi_status = Initializing,
                          bi_currentUrl = None, bi_pageTitle = None, bi_createdAt = clock s,
                          bi_lastActivity = clock s, bi_currentCommand = None, bi_error = None\<rparr>;
          s1 = s\<lparr>browserInstances := AList.update sessionId browserState (browserInstances s),
                 clock := settled_at init\<rparr>
      in case init of
           Resolved t u \<Rightarrow>
             (None, upd_browser sessionId (\<lambda>b. b\<lparr>bi_status := Ready, bi_lastActivity := t\<rparr>) s1)
         | Rejected t e \<Rightarrow>
             (Some e,
              upd_browser sessionId
                (\<lambda>b. b\<lparr>bi_status := ErrorStatus,
                        bi_error := Some \<lparr>err_message = message_or ''Browser initialization failed'' e,
                                          err_code = BROWSER_INIT_FAILED, err_timestamp = t\<rparr>\<rparr>) s1))"

definition handleConnection ::
  "string \<Rightarrow> string \<Rightarrow> string \<Rightarrow> bool settled \<Rightarrow> unit settled \<Rightarrow> SocketController \<Rightarrow> SocketController" where
  "handleConnection socketId sessionId clientIp rate init s =
     (let s1 = s\<lparr>clock := settled_at rate\<rparr>;
          failed = (\<lambda>e s'. s'\<lparr>trace := trace s' @
                     [Emit socketId (error_event ''Connection setup failed'' SERVER_ERROR
                                       (Some (message_or ''Unknown error'' e))),
                      Disconnect socketId]\<rparr>)
      in case rate of
           Rejected t e \<Rightarrow> failed e s1
         | Resolved t allowed \<Rightarrow>
             if \<not> allowed
             then s1\<lparr>trace := trace s1 @
                      [Emit socketId (error_event ''Too many connections. Please try again later.''
                                        PERMISSION_DENIED None),
                       Disconnect socketId]\<rparr>
             else
               (let session = \<lparr>cs_id = sessionId, cs_socketId = socketId, cs_clientIp = clientIp,
                               cs_connectedAt = t, cs_lastActivity = t, cs_commandCount = 0\<rparr>;
                    s2 = s1\<lparr>clientSessions := AList.update sessionId session (clientSessions s1),
                            connectionStats := (connectionStats s1)
                              \<lparr>totalConnections := totalConnections (connectionStats s1) + 1,
                               activeConnections := activeConnections (connectionStats s1) + 1\<rparr>\<rparr>
                in case initializeBrowserInstance sessionId socketId init s2 of
                     (Some e, s3) \<Rightarrow> failed e s3
                   | (None, s3) \<Rightarrow> emit socketId (browser_status Ready) s3))"

section \<open>SocketController: disconnect, sweeps and reset\<close>

text \<open>
  \<^verbatim>\<open>handleDisconnection\<close>, in the three blocks of its body: the session, the browser
  instance, the executions of the session. The loop over \<^verbatim>\<open>executionQueue.entries()\<close> visits the entries in
  insertion order; deleting the entry being visited does not disturb the iteration. The
  \<^verbatim>\<open>cleanup()\<close> of the browser service is started and not awaited. Nothing in the body throws,
  so the \<^verbatim>\<open>catch\<close> (which only logs) is never entered.
\<close>

fun cancel_executions :: "string \<Rightarrow> (string \<times> nat) list \<Rightarrow> SocketController \<Rightarrow> SocketController" where
  "cancel_executions sessionId [] s = s"
| "cancel_executions sessionId ((executionId, a) # rest) s =
     cancel_executions sessionId rest
       (if ex_sessionId (executions s ! a) = sessionId
        then (upd_execution a (\<lambda>e. e\<lparr>ex_status := Cancelled\<rparr>) s)
               \<lparr>executionQueue := AList.delete executionId (executionQueue s)\<rparr>
        else s)"

definition remove_session :: "string \<Rightarrow> SocketController \<Rightarrow> SocketController" where
  "remove_session sessionId s =
     (case map_of (clientSessions s) sessionId of
        None \<Rightarrow> s
      | Some session \<Rightarrow>
          s\<lparr>clientSessions := AList.delete sessionId (clientSessions s),
            connectionStats := (connectionStats s)
              \<lparr>activeConnections := activeConnections (connectionStats s) - 1\<rparr>\<rparr>)"

definition remove_browser_instance :: "string \<Rightarrow> SocketController \<Rightarrow> SocketController" where
  "remove_browser_instance sessionId s =
     (case map_of (browserInstances s) sessionId of
        None \<Rightarrow> s
      | Some browserState \<Rightarrow>
          call_service cleanup
            (s\<lparr>browserInstances := AList.delete sessionId (browserInstances s)\<rparr>))"

definition handleDisconnection :: "string \<Rightarrow> SocketController \<Rightarrow> SocketController" where
  "handleDisconnection sessionId s =
     (let s1 = remove_session sessionId s;
          s2 = remove_browser_instance sessionId s1
      in cancel_executions sessionId (executionQueue s2) s2)"

text \<open>\<^verbatim>\<open>cleanupInactiveSessions\<close>: the idle-session sweep.\<close>

fun sweep_sessions :: "int \<Rightarrow> int \<Rightarrow> (string \<times> ClientSession) list \<Rightarrow> SocketController \<Rightarrow> SocketController" where
  "sweep_sessions now timeout [] s = s"
| "sweep_sessions now timeout ((sessionId, session) # rest) s =
     sweep_sessions now timeout rest
       (if now - cs_lastActivity session > timeout
        then s\<lparr>clientSessions := AList.delete sessionId (clientSessions s)\<rparr>
        else s)"

definition cleanupInactiveSessions :: "SocketController \<Rightarrow> SocketController" where
  "cleanupInactiveSessions s = sweep_sessions (clock s) (sessionTimeout s) (clientSessions s) s"

text \<open>\<^verbatim>\<open>cleanupOldBrowserInstances\<close>: the sweep of browser instances idle for more than 30 minutes.\<close>

fun sweep_instances :: "int \<Rightarrow> int \<Rightarrow> (string \<times> BrowserInstanceState) list \<Rightarrow> SocketController \<Rightarrow> SocketController" where
  "sweep_instances now maxAge [] s = s"
| "sweep_instances now maxAge ((instanceId, instance) # rest) s =
     sweep_instances now maxAge rest
       (if now - bi_lastActivity instance > maxAge
        then call_service cleanup
               (s\<lparr>browserInstances := AList.delete instanceId (browserInstances s)\<rparr>)
        else s)"

definition cleanupOldBrowserInstances :: "SocketController \<Rightarrow> SocketController" where
  "cleanupOldBrowserInstances s =
     sweep_instances (clock s) (30 * 60 * 1000) (browserInstances s) s"

text \<open>
  \<^verbatim>\<open>handleResetBrowser\<close>. The parameter \<open>reset\<close> is how the awaited
  \<^verbatim>\<open>browserService.resetBrowser()\<close> settles. The handler has no test of the status.
\<close>

definition handleResetBrowser ::
  "string \<Rightarrow> string \<Rightarrow> unit settled \<Rightarrow> SocketController \<Rightarrow> SocketController" where
  "handleResetBrowser socketId sessionId reset s =
     (case map_of (browserInstances s) sessionId of
        None \<Rightarrow>
          emit socketId (error_event ''Browser reset failed'' BROWSER_INIT_FAILED
                           (Some ''Browser instance not found'')) s
      | Some browserState \<Rightarrow>
          (let s1 = upd_browser sessionId (\<lambda>b. b\<lparr>bi_status := Initializing\<rparr>) s;
               s2 = emit socketId (browser_status Initializing) s1;
               s3 = (call_service resetBrowser s2)\<lparr>clock := settled_at reset\<rparr>
           in case reset of
                Rejected t e \<Rightarrow>
                  emit socketId (error_event ''Browser reset failed'' BROWSER_INIT_FAILED
                                   (Some (message_or ''Unknown error'' e))) s3
              | Resolved t u \<Rightarrow>
                  emit socketId (browser_status Ready)
                    (upd_browser sessionId
                       (\<lambda>b. b\<lparr>bi_status := Ready, bi_currentUrl := None, bi_pageTitle := None,
                               bi_lastActivity := t, bi_error := None\<rparr>) s3)))"

section \<open>SocketController: executing a command batch\<close>

text \<open>
  The collaborators are outside the controller, so the way each awaited call settles is a
  parameter. \<open>request_oracle\<close> holds the settlements of one \<^verbatim>\<open>execute_command\<close> request: the
  security check inside \<^verbatim>\<open>validateCommandInput\<close>, the screenshot taken for the parser, the
  parser's answer, and for the command at index \<open>i\<close> the record \<open>ro_steps ro i\<close> with the
  settlements of \<^verbatim>\<open>executeCommand\<close>, of the screenshot after the command, and of the two page
  queries of \<^verbatim>\<open>updateBrowserState\<close>.
\<close>

record security_check =
  safe :: bool
  reasons :: "string list"

record validation_result =
  isValid :: bool
  vr_error :: "string option"

record AIParseResponse =
  pr_success :: bool
  pr_commands :: "BrowserCommand list option"
  pr_error :: "string option"

record step_oracle =
  so_execute :: "BrowserResponse settled"
  so_screenshot :: "string settled"
  so_url :: "string settled"
  so_title :: "string settled"

record request_oracle =
  ro_security :: "security_check settled"
  ro_screenshot :: "string settled"
  ro_parse :: "AIParseResponse settled"
  ro_steps :: "nat \<Rightarrow> step_oracle"

text \<open>\<^verbatim>\<open>reasons.join(', ')\<close>\<close>

fun join_comma :: "string list \<Rightarrow> string" where
  "join_comma [] = []"
| "join_comma [x] = x"
| "join_comma (x # y # ys) = x @ '', '' @ join_comma (y # ys)"

text \<open>
  \<^verbatim>\<open>validateCommandInput\<close>. A \<^verbatim>\<open>userInput\<close> that is not a string is represented by the empty
  string, so \<^verbatim>\<open>!userInput || typeof userInput !== 'string'\<close> is the test for the empty string.
  A security check that throws is caught and gives \<^verbatim>\<open>Validation error\<close>.
\<close>

definition validateCommandInput ::
  "string \<Rightarrow> security_check settled \<Rightarrow> SocketController \<Rightarrow> validation_result \<times> SocketController" where
  "validateCommandInput userInput securityCheck s =
     (if userInput = [] then (\<lparr>isValid = False, vr_error = Some ''Invalid input format''\<rparr>, s)
      else if length userInput > 1000
      then (\<lparr>isValid = False, vr_error = Some ''Input too long''\<rparr>, s)
      else
        (let s1 = s\<lparr>clock := settled_at securityCheck\<rparr>
         in case securityCheck of
              Rejected t e \<Rightarrow> (\<lparr>isValid = False, vr_error = Some ''Validation error''\<rparr>, s1)
            | Resolved t c \<Rightarrow>
                if \<not> safe c
                then (\<lparr>isValid = False,
                       vr_error = Some (''Security check failed: '' @ join_comma (reasons c))\<rparr>, s1)
                else (\<lparr>isValid = True, vr_error = None\<rparr>, s1)))"

text \<open>
  \<^verbatim>\<open>Math.round(((i + 1) / n) * 80) + 20\<close>, over the exact quotient: \<^verbatim>\<open>Math.round\<close> rounds to the
  nearest integer, a half upwards, which is \<open>\<lfloor>x + 1/2\<rfloor>\<close>. (Computed in double
  precision the expression gives the same integer for every \<open>n\<close> below 3000 and every
  \<open>i < n\<close>; this was checked by enumeration outside this theory.)
\<close>

definition progress_of :: "nat \<Rightarrow> nat \<Rightarrow> nat" where
  "progress_of i n = (160 * (i + 1) + n) div (2 * n) + 20"

text \<open>\<^verbatim>\<open>updateBrowserState\<close>: the instance is looked up first; both page queries are awaited before
  anything is written; a query that throws is caught (and logged).\<close>

definition updateBrowserState ::
  "string \<Rightarrow> string settled \<Rightarrow> string settled \<Rightarrow> SocketController \<Rightarrow> SocketController" where
  "updateBrowserState sessionId u ti s =
     (case map_of (browserInstances s) sessionId of
        None \<Rightarrow> s
      | Some browserState \<Rightarrow>
          (let s1 = (call_service getCurrentUrl s)\<lparr>clock := settled_at u\<rparr>
           in case u of
                Rejected t e \<Rightarrow> s1
              | Resolved t currentUrl \<Rightarrow>
                  (let s2 = (call_service getPageTitle s1)\<lparr>clock := settled_at ti\<rparr>
                   in case ti of
                        Rejected t' e \<Rightarrow> s2
                      | Resolved t' pageTitle \<Rightarrow>
                          upd_browser sessionId
                            (\<lambda>b. b\<lparr>bi_currentUrl := Some currentUrl,
                                    bi_pageTitle := Some pageTitle,
                                    bi_lastActivity := t'\<rparr>) s2)))"

text \<open>
  One iteration of the loop of \<^verbatim>\<open>executeCommands\<close>, for the command at index \<open>i\<close> of \<open>n\<close>; \<open>a\<close>
  is the address of the execution object. \<open>begin_command\<close> is the part up to the
  \<^verbatim>\<open>await this.browserService.executeCommand(command)\<close>, \<open>finish_command\<close> the part after it.
  The result is the thrown value, if the iteration throws, and the state.
\<close>

definition begin_command ::
  "string \<Rightarrow> nat \<Rightarrow> nat \<Rightarrow> nat \<Rightarrow> BrowserCommand \<Rightarrow> SocketController \<Rightarrow> SocketController" where
  "begin_command socketId a n i command s =
     call_service (executeCommand command)
       (emit socketId (command_progress executing (progress_of i n) (StepExecuting (action command)))
          (upd_execution a (\<lambda>e. e\<lparr>ex_currentIndex := i\<rparr>) s))"

definition finish_command ::
  "string \<Rightarrow> string \<Rightarrow> nat \<Rightarrow> BrowserCommand \<Rightarrow> step_oracle \<Rightarrow> SocketController
     \<Rightarrow> thrown option \<times> SocketController" where
  "finish_command socketId sessionId a command so s =
     (let s1 = s\<lparr>clock := settled_at (so_execute so)\<rparr>
      in case so_execute so of
           Rejected t e \<Rightarrow> (Some e, s1)
         | Resolved t result \<Rightarrow>
             (let s2 = upd_execution a (\<lambda>e. e\<lparr>ex_results := ex_results e @ [result]\<rparr>) s1
              in if \<not> br_success result
                 then (Some (Error (or_default (br_error result) ''Command execution failed'')),
                       upd_execution a (\<lambda>e. e\<lparr>ex_status := Failed\<rparr>) s2)
                 else if action command \<in> set [Navigate, Click, Type]
                 then
                   (let s3 = (call_service takeScreenshot s2)\<lparr>clock := settled_at (so_screenshot so)\<rparr>
                    in case so_screenshot so of
                         Rejected t' e \<Rightarrow> (Some e, s3)
                       | Resolved t' shot \<Rightarrow>
                           (None, updateBrowserState sessionId (so_url so) (so_title so)
                                    (emit socketId (screenshot_update shot t') s3)))
                 else (None, updateBrowserState sessionId (so_url so) (so_title so) s2)))"

definition run_command ::
  "string \<Rightarrow> string \<Rightarrow> nat \<Rightarrow> nat \<Rightarrow> nat \<Rightarrow> BrowserCommand \<Rightarrow> step_oracle \<Rightarrow> SocketController
     \<Rightarrow> thrown option \<times> SocketController" where
  "run_command socketId sessionId a n i command so s =
     finish_command socketId sessionId a command so (begin_command socketId a n i command s)"

text \<open>The \<^verbatim>\<open>for\<close> loop, from index \<open>i\<close>, over the commands still to run. The array
  \<^verbatim>\<open>execution.commands\<close> is never written, so its length \<open>n\<close> is fixed.\<close>

fun exec_loop ::
  "string \<Rightarrow> string \<Rightarrow> nat \<Rightarrow> nat \<Rightarrow> nat \<Rightarrow> BrowserCommand list \<Rightarrow> (nat \<Rightarrow> step_oracle)
     \<Rightarrow> SocketController \<Rightarrow> thrown option \<times> SocketController" where
  "exec_loop socketId sessionId a n i [] steps s = (None, s)"
| "exec_loop socketId sessionId a n i (command # rest) steps s =
     (case run_command socketId sessionId a n i command (steps i) s of
        (Some e, s') \<Rightarrow> (Some e, s')
      | (None, s') \<Rightarrow> exec_loop socketId sessionId a n (Suc i) rest steps s')"

text \<open>\<^verbatim>\<open>xs[i]\<close>, which is \<^verbatim>\<open>undefined\<close> out of range.\<close>

definition nth_opt :: "'a list \<Rightarrow> nat \<Rightarrow> 'a option" where
  "nth_opt xs i = (if i < length xs then Some (xs ! i) else None)"

text \<open>
  \<^verbatim>\<open>executeCommands\<close>. \<open>enter_execution\<close> is the part before the \<^verbatim>\<open>try\<close>: the instance becomes
  busy. After the loop the success branch makes the instance ready and clears
  \<^verbatim>\<open>currentCommand\<close>; the \<^verbatim>\<open>catch\<close> branch sets status and error and throws again.
\<close>

definition enter_execution :: "string \<Rightarrow> nat \<Rightarrow> SocketController \<Rightarrow> SocketController" where
  "enter_execution sessionId a s =
     upd_browser sessionId
       (\<lambda>b. b\<lparr>bi_status := Busy,
               bi_currentCommand :=
                 nth_opt (ex_commands (executions s ! a)) (ex_currentIndex (executions s ! a))\<rparr>) s"

definition executeCommands ::
  "string \<Rightarrow> string \<Rightarrow> nat \<Rightarrow> (nat \<Rightarrow> step_oracle) \<Rightarrow> SocketController
     \<Rightarrow> thrown option \<times> SocketController" where
  "executeCommands socketId sessionId a steps s =
     (case map_of (browserInstances s) sessionId of
        None \<Rightarrow> (Some (Error ''Browser instance not found''), s)
      | Some browserState \<Rightarrow>
          (let commands = ex_commands (executions s ! a)
           in case exec_loop socketId sessionId a (length commands) 0 commands steps
                     (enter_execution sessionId a s) of
                (None, s1) \<Rightarrow>
                  (let s2 = upd_execution a (\<lambda>e. e\<lparr>ex_status := Completed\<rparr>) s1;
                       s3 = upd_browser sessionId
                              (\<lambda>b. b\<lparr>bi_status := Ready, bi_currentCommand := None\<rparr>) s2;
                       s4 = emit socketId (command_progress completed 100 StepCompleted) s3
                   in (None,
                       emit socketId
                         (command_result
                            \<lparr>cr_success = True, cr_data = Some (ex_results (executions s4 ! a)),
                             cr_error = None,
                             cr_executionTime = clock s4 - ex_startTime (executions s4 ! a)\<rparr>) s4))
              | (Some e, s1) \<Rightarrow>
                  (Some e,
                   upd_browser sessionId
                     (\<lambda>b. b\<lparr>bi_status := ErrorStatus,
                             bi_error := Some \<lparr>err_message = message_or ''Command execution failed'' e,
                                               err_code = COMMAND_EXECUTION_FAILED,
                                               err_timestamp = clock s1\<rparr>\<rparr>)
                     (upd_execution a (\<lambda>e. e\<lparr>ex_status := Failed\<rparr>) s1))))"

text \<open>
  \<^verbatim>\<open>handleExecuteCommand\<close>. The request's \<^verbatim>\<open>data\<close> comes from the client as it is, the
  declared type is not checked at run time: \<open>NoData\<close> is a request without a payload (\<^verbatim>\<open>data\<close> is
  \<^verbatim>\<open>undefined\<close> or \<^verbatim>\<open>null\<close>), for which every \<^verbatim>\<open>data.userInput\<close> throws a \<^verbatim>\<open>TypeError\<close>;
  \<open>Data userInput\<close> is any other payload. Of a payload only \<^verbatim>\<open>userInput\<close> matters to the
  controller (\<^verbatim>\<open>context\<close> is passed on to the parser); a \<^verbatim>\<open>userInput\<close> that is missing or not
  a string fails the first test of \<^verbatim>\<open>validateCommandInput\<close> exactly as the empty string does
  and is represented by it. \<open>executionId\<close> is the id that \<^verbatim>\<open>uuidv4()\<close> returns. The
  pieces, in program order:
  \<^item> \<open>admit\<close>: the tests on session and browser instance;
  \<^item> the first \<^verbatim>\<open>data.userInput\<close>, and the validation (the first \<^verbatim>\<open>await\<close>);
  \<^item> \<open>start_parsing\<close>: after the validation, up to \<^verbatim>\<open>await takeScreenshot()\<close>;
  \<^item> \<open>call_parser\<close>: up to \<^verbatim>\<open>await parseCommand(...)\<close>;
  \<^item> \<open>create_execution\<close>: the new execution object and \<^verbatim>\<open>executionQueue.set\<close>;
  \<^item> \<open>executeCommands\<close>, then the counters.
  \<open>try_execute\<close> is the body of the \<^verbatim>\<open>try\<close>. The handler adds \<^verbatim>\<open>catch\<close> and \<^verbatim>\<open>finally\<close>; its
  result is the value with which the returned promise rejects, if it rejects, and the state.
  The \<^verbatim>\<open>catch\<close> counts the failure, then builds the argument of the logger call, which
  reads \<^verbatim>\<open>data.userInput\<close> again, and only then emits the failure result: without a
  payload that read throws, the \<^verbatim>\<open>catch\<close> is left before the emit, and after the \<^verbatim>\<open>finally\<close>
  the promise rejects. (The wording of the \<^verbatim>\<open>TypeError\<close> is the engine's; \<open>type_error\<close> stands
  for it.)
\<close>

datatype request_data = NoData | Data string

definition type_error :: thrown where
  "type_error = Error ''Cannot read properties of undefined''"

fun status_name :: "browser_status \<Rightarrow> string" where
  "status_name Initializing = ''initializing''"
| "status_name Ready = ''ready''"
| "status_name Busy = ''busy''"
| "status_name ErrorStatus = ''error''"
| "status_name Closed = ''closed''"

definition admit :: "string \<Rightarrow> SocketController \<Rightarrow> thrown option" where
  "admit sessionId s =
     (case map_of (clientSessions s) sessionId of
        None \<Rightarrow> Some (Error ''Session or browser instance not found'')
      | Some session \<Rightarrow>
          (case map_of (browserInstances s) sessionId of
             None \<Rightarrow> Some (Error ''Session or browser instance not found'')
           | Some browserState \<Rightarrow>
               if bi_status browserState \<noteq> Ready
               then Some (Error (''Browser not ready. Status: '' @ status_name (bi_status browserState)))
               else None))"

definition start_parsing :: "string \<Rightarrow> SocketController \<Rightarrow> SocketController" where
  "start_parsing socketId s =
     call_service takeScreenshot (emit socketId (command_progress parsing 10 StepParsing) s)"

definition call_parser :: "string \<Rightarrow> string settled \<Rightarrow> SocketController \<Rightarrow> SocketController" where
  "call_parser userInput shot s = call_service (parseCommand userInput) (s\<lparr>clock := settled_at shot\<rparr>)"

definition create_execution ::
  "string \<Rightarrow> string \<Rightarrow> string \<Rightarrow> BrowserCommand list \<Rightarrow> SocketController \<Rightarrow> nat \<times> SocketController" where
  "create_execution executionId sessionId userInput commands s =
     (let a = length (executions s);
          execution = \<lparr>ex_id = executionId, ex_sessionId = sessionId, ex_userInput = userInput,
                       ex_commands = commands, ex_currentIndex = 0, ex_startTime = clock s,
                       ex_results = [], ex_status = Running\<rparr>
      in (a, s\<lparr>executions := executions s @ [execution],
                executionQueue := AList.update executionId a (executionQueue s)\<rparr>))"

definition count_command :: "string \<Rightarrow> SocketController \<Rightarrow> SocketController" where
  "count_command sessionId s =
     (upd_session sessionId
        (\<lambda>c. c\<lparr>cs_commandCount := cs_commandCount c + 1, cs_lastActivity := clock s\<rparr>) s)
       \<lparr>connectionStats := (connectionStats s)
          \<lparr>totalCommands := totalCommands (connectionStats s) + 1\<rparr>\<rparr>"

definition try_execute ::
  "string \<Rightarrow> string \<Rightarrow> string \<Rightarrow> request_data \<Rightarrow> request_oracle \<Rightarrow> SocketController
     \<Rightarrow> thrown option \<times> SocketController" where
  "try_execute socketId sessionId executionId data ro s =
     (case admit sessionId s of
        Some e \<Rightarrow> (Some e, s)
      | None \<Rightarrow>
          (case data of
             NoData \<Rightarrow> (Some type_error, s)
           | Data userInput \<Rightarrow>
          (case validateCommandInput userInput (ro_security ro) s of
             (validationResult, s1) \<Rightarrow>
               if \<not> isValid validationResult
               then (Some (Error (or_default (vr_error validationResult) ''Invalid input'')), s1)
               else
                 (let s2 = start_parsing socketId s1
                  in case ro_screenshot ro of
                       Rejected t e \<Rightarrow> (Some e, s2\<lparr>clock := t\<rparr>)
                     | Resolved t currentScreenshot \<Rightarrow>
                         (let s3 = (call_parser userInput (ro_screenshot ro) s2)
                                     \<lparr>clock := settled_at (ro_parse ro)\<rparr>
                          in case ro_parse ro of
                               Rejected t' e \<Rightarrow> (Some e, s3)
                             | Resolved t' parseResult \<Rightarrow>
                                 (case pr_commands parseResult of
                                    None \<Rightarrow>
                                      (Some (Error (or_default (pr_error parseResult)
                                                      ''Command parsing failed'')), s3)
                                  | Some commands \<Rightarrow>
                                      if \<not> pr_success parseResult
                                      then (Some (Error (or_default (pr_error parseResult)
                                                           ''Command parsing failed'')), s3)
                                      else
                                        (case create_execution executionId sessionId userInput
                                                commands s3 of
                                           (a, s4) \<Rightarrow>
                                             (case executeCommands socketId sessionId a
                                                     (ro_steps ro) s4 of
                                                (Some e, s5) \<Rightarrow> (Some e, s5)
                                              | (None, s5) \<Rightarrow>
                                                  (None, count_command sessionId s5)))))))))"

definition handleExecuteCommand ::
  "string \<Rightarrow> string \<Rightarrow> string \<Rightarrow> request_data \<Rightarrow> request_oracle \<Rightarrow> SocketController
     \<Rightarrow> thrown option \<times> SocketController" where
  "handleExecuteCommand socketId sessionId executionId data ro s =
     (let startTime = clock s
      in case (case try_execute socketId sessionId executionId data ro s of
                 (None, s1) \<Rightarrow> (None, s1)
               | (Some e, s1) \<Rightarrow>
                   (let s2 = s1\<lparr>connectionStats := (connectionStats s1)
                                 \<lparr>failedCommands := failedCommands (connectionStats s1) + 1\<rparr>\<rparr>
                    in case data of
                         NoData \<Rightarrow> (Some type_error, s2)
                       | Data userInput \<Rightarrow>
                           (None,
                            emit socketId
                              (command_result
                                 \<lparr>cr_success = False, cr_data = None,
                                  cr_error = Some (message_or ''Command execution failed'' e),
                                  cr_executionTime = clock s2 - startTime\<rparr>) s2))) of
           (r, s3) \<Rightarrow> (r, s3\<lparr>executionQueue := AList.delete executionId (executionQueue s3)\<rparr>))"

section \<open>Auxiliary notions and sample states\<close>

text \<open>The ids of the queue entries that the cancelling loop of \<^verbatim>\<open>handleDisconnection\<close> hits:
  those whose execution belongs to the session.\<close>

definition hit_ids :: "string \<Rightarrow> (string \<times> nat) list \<Rightarrow> SocketController \<Rightarrow> string set" where
  "hit_ids sid q s = fst ` set (filter (\<lambda>e. ex_sessionId (executions s ! snd e) = sid) q)"

text \<open>
  Sample states. \<open>connected\<close> is the controller after one client (session \<open>s1\<close> on socket
  \<open>k1\<close>) has connected and its browser instance has been initialised. \<open>in_flight\<close> is that
  controller while the client's execution \<open>e1\<close> of a single \<^verbatim>\<open>navigate\<close> command waits for the
  browser service: the instance is busy and the execution is running.
\<close>

definition session1 :: ClientSession where
  "session1 = \<lparr>cs_id = ''s1'', cs_socketId = ''k1'', cs_clientIp = ''10.1.1.1'',
               cs_connectedAt = 0, cs_lastActivity = 0, cs_commandCount = 0\<rparr>"

definition instance1 :: BrowserInstanceState where
  "instance1 = \<lparr>bi_id = ''s1'', bi_socketId = ''k1'', bi_status = Ready, bi_currentUrl = None,
                bi_pageTitle = None, bi_createdAt = 0, bi_lastActivity = 0,
                bi_currentCommand = None, bi_error = None\<rparr>"

definition navigate1 :: BrowserCommand where
  "navigate1 = \<lparr>action = Navigate, selector = None, cmd_value = None,
                url = Some ''https://example.com''\<rparr>"

definition click1 :: BrowserCommand where
  "click1 = \<lparr>action = Click, selector = Some ''#login'', cmd_value = None, url = None\<rparr>"

definition connected :: SocketController where
  "connected = \<lparr>clientSessions = [(''s1'', session1)],
                browserInstances = [(''s1'', instance1)],
                executionQueue = [], executions = [],
                connectionStats = \<lparr>totalConnections = 1, activeConnections = 1,
                                    totalCommands = 0, failedCommands = 0\<rparr>,
                trace = [Emit ''k1'' (browser_status Ready)],
                clock = 0, sessionTimeout = 1800000\<rparr>"

definition execution1 :: ExecutionContext where
  "execution1 = \<lparr>ex_id = ''e1'', ex_sessionId = ''s1'', ex_userInput = ''go to example.com'',
                 ex_commands = [navigate1], ex_currentIndex = 0, ex_startTime = 10,
                 ex_results = [], ex_status = Running\<rparr>"

definition in_flight :: SocketController where
  "in_flight = connected
     \<lparr>browserInstances :=
        [(''s1'', instance1\<lparr>bi_status := Busy, bi_currentCommand := Some navigate1\<rparr>)],
      executionQueue := [(''e1'', 0)], executions := [execution1],
      trace := trace connected @
        [Emit ''k1'' (command_progress parsing 10 StepParsing), Service takeScreenshot,
         Service (parseCommand ''go to example.com''),
         Emit ''k1'' (command_progress executing 100 (StepExecuting Navigate)),
         Service (executeCommand navigate1)],
      clock := 10\<rparr>"

text \<open>
  What a trace shows of a request: the percentages of the \<^verbatim>\<open>command_progress\<close> events, the
  commands handed to \<^verbatim>\<open>browserService.executeCommand\<close>, and the \<^verbatim>\<open>command_result\<close> payloads
  (success flag, data, error; the elapsed time is dropped), in the order in which they happened.
\<close>

datatype item = P nat | X BrowserCommand | R bool "BrowserResponse list option" "string option"

fun item_of :: "effect \<Rightarrow> item list" where
  "item_of (Emit k (command_progress st p l)) = [P p]"
| "item_of (Emit k (command_result r)) = [R (cr_success r) (cr_data r) (cr_error r)]"
| "item_of (Service (executeCommand c)) = [X c]"
| "item_of e = []"

definition items :: "effect list \<Rightarrow> item list" where
  "items tr = concat (map item_of tr)"

fun percent_of :: "item \<Rightarrow> nat list" where
  "percent_of (P p) = [p]"
| "percent_of i = []"

definition percents :: "item list \<Rightarrow> nat list" where
  "percents xs = concat (map percent_of xs)"

fun is_result :: "effect \<Rightarrow> bool" where
  "is_result (Emit k (command_result r)) = True"
| "is_result e = False"

text \<open>
  How a command fares under an oracle. The command at hand fails when \<^verbatim>\<open>executeCommand\<close>
  rejects, or resolves with \<^verbatim>\<open>success: false\<close>, or (for navigate, click and type) when the
  screenshot after the command rejects. \<open>step_error\<close> is the value thrown then, and
  \<open>step_results\<close> what the step appends to \<^verbatim>\<open>execution.results\<close>.
\<close>

fun is_rejected :: "'a settled \<Rightarrow> bool" where
  "is_rejected (Rejected t e) = True"
| "is_rejected (Resolved t v) = False"

definition step_fails :: "BrowserCommand \<Rightarrow> step_oracle \<Rightarrow> bool" where
  "step_fails command so =
     (case so_execute so of
        Rejected t e \<Rightarrow> True
      | Resolved t result \<Rightarrow>
          if br_success result
          then action command \<in> set [Navigate, Click, Type] \<and> is_rejected (so_screenshot so)
          else True)"

definition step_error :: "step_oracle \<Rightarrow> thrown" where
  "step_error so =
     (case so_execute so of
        Rejected t e \<Rightarrow> e
      | Resolved t result \<Rightarrow>
          if br_success result
          then (case so_screenshot so of Rejected t' e \<Rightarrow> e | Resolved t' shot \<Rightarrow> NonError)
          else Error (or_default (br_error result) ''Command execution failed''))"

definition step_results :: "step_oracle \<Rightarrow> BrowserResponse list" where
  "step_results so = (case so_execute so of Rejected t e \<Rightarrow> [] | Resolved t result \<Rightarrow> [result])"

text \<open>The index of the first command that fails, and what the loop shows in the trace: for
  each command that is started its progress event and then its call, up to and including
  the first one that fails.\<close>

fun first_failure :: "nat \<Rightarrow> BrowserCommand list \<Rightarrow> (nat \<Rightarrow> step_oracle) \<Rightarrow> nat option" where
  "first_failure i [] steps = None"
| "first_failure i (c # cs) steps =
     (if step_fails c (steps i) then Some i else first_failure (Suc i) cs steps)"

fun loop_items :: "nat \<Rightarrow> nat \<Rightarrow> BrowserCommand list \<Rightarrow> (nat \<Rightarrow> step_oracle) \<Rightarrow> item list" where
  "loop_items n i [] steps = []"
| "loop_items n i (c # cs) steps =
     P (progress_of i n) # X c #
       (if step_fails c (steps i) then [] else loop_items n (Suc i) cs steps)"

fun loop_results :: "nat \<Rightarrow> BrowserCommand list \<Rightarrow> (nat \<Rightarrow> step_oracle) \<Rightarrow> BrowserResponse list" where
  "loop_results i [] steps = []"
| "loop_results i (c # cs) steps =
     step_results (steps i) @
       (if step_fails c (steps i) then [] else loop_results (Suc i) cs steps)"

text \<open>
  Sample oracles. In \<open>oracle_click_fails\<close> the parser returns navigate, click, type; navigate
  succeeds and click comes back with \<^verbatim>\<open>success: false\<close>. In \<open>oracle_all_ok\<close> the parser returns
  navigate, click and both succeed.
\<close>

definition type1 :: BrowserCommand where
  "type1 = \<lparr>action = Type, selector = Some ''#user'', cmd_value = Some ''alice'', url = None\<rparr>"

definition ok_response :: BrowserResponse where
  "ok_response = \<lparr>br_success = True, br_data = Some ''Command executed'', br_error = None\<rparr>"

definition failed_response :: BrowserResponse where
  "failed_response = \<lparr>br_success = False, br_data = None, br_error = Some ''Element not found''\<rparr>"

definition ok_step :: step_oracle where
  "ok_step = \<lparr>so_execute = Resolved 20 ok_response, so_screenshot = Resolved 21 ''png'',
              so_url = Resolved 22 ''https://example.com/'', so_title = Resolved 23 ''Example''\<rparr>"

definition failing_step :: step_oracle where
  "failing_step = ok_step\<lparr>so_execute := Resolved 30 failed_response\<rparr>"

definition oracle_click_fails :: request_oracle where
  "oracle_click_fails =
     \<lparr>ro_security = Resolved 2 \<lparr>safe = True, reasons = []\<rparr>,
      ro_screenshot = Resolved 5 ''png'',
      ro_parse = Resolved 10 \<lparr>pr_success = True, pr_commands = Some [navigate1, click1, type1],
                               pr_error = None\<rparr>,
      ro_steps = (\<lambda>i. if i = 1 then failing_step else ok_step)\<rparr>"

definition oracle_all_ok :: request_oracle where
  "oracle_all_ok =
     \<lparr>ro_security = Resolved 2 \<lparr>safe = True, reasons = []\<rparr>,
      ro_screenshot = Resolved 5 ''png'',
      ro_parse = Resolved 10 \<lparr>pr_success = True, pr_commands = Some [navigate1, click1],
                               pr_error = None\<rparr>,
      ro_steps = (\<lambda>i. ok_step)\<rparr>"

text \<open>The percentage of the first progress event that follows the execution of the command
  with index \<open>i\<close> (counting the calls of \<^verbatim>\<open>executeCommand\<close> from 0), if there is one.\<close>

fun after_command :: "nat \<Rightarrow> item list \<Rightarrow> item list" where
  "after_command i [] = []"
| "after_command i (X c # xs) = (case i of 0 \<Rightarrow> xs | Suc j \<Rightarrow> after_command j xs)"
| "after_command i (y # xs) = after_command i xs"

definition percent_after :: "nat \<Rightarrow> item list \<Rightarrow> nat option" where
  "percent_after i xs = (case percents (after_command i xs) of [] \<Rightarrow> None | p # ps \<Rightarrow> Some p)"

text \<open>
  Two requests of one session that overlap, in the order of time. Each state is the
  controller at a point where every handler under way waits at an \<^verbatim>\<open>await\<close>; the pieces of
  each handler are applied in its program order, each at the time its awaited call settles.
  Request A (execution id \<open>e1\<close>) and request B (\<open>e2\<close>) come from the client of session \<open>s1\<close>.
  \<^item> \<open>race1\<close> (time 2): A has passed the tests of \<open>admit\<close> on \<open>connected\<close>, its input is
    validated, it has emitted the parsing event and waits for its screenshot.
  \<^item> \<open>race2\<close> (time 3): B has passed the tests of \<open>admit\<close> on \<open>race1\<close>, is validated too and
    waits for its screenshot.
  \<^item> \<open>race3\<close> (time 5): A's screenshot has settled and A waits for the parser.
  \<^item> \<open>race4\<close> (time 6): B's screenshot has settled and B waits for the parser.
  \<^item> \<open>race5\<close> (time 10): A's parser call has settled; A has created its execution, entered
    \<^verbatim>\<open>executeCommands\<close> and waits for \<^verbatim>\<open>executeCommand\<close> of its first command.
  \<^item> \<open>race6\<close> (time 12): B's parser call has settled and B has created its execution.
\<close>

definition security_ok :: "security_check settled" where
  "security_ok = Resolved 2 \<lparr>safe = True, reasons = []\<rparr>"

definition race1 :: SocketController where
  "race1 = start_parsing ''k1'' (snd (validateCommandInput ''go to example.com'' security_ok connected))"

definition race2 :: SocketController where
  "race2 = start_parsing ''k1''
             (snd (validateCommandInput ''click login'' (Resolved 3 \<lparr>safe = True, reasons = []\<rparr>) race1))"

definition race3 :: SocketController where
  "race3 = call_parser ''go to example.com'' (Resolved 5 ''png'') race2"

definition race4 :: SocketController where
  "race4 = call_parser ''click login'' (Resolved 6 ''png'') race3"

definition race5 :: SocketController where
  "race5 =
     (case create_execution ''e1'' ''s1'' ''go to example.com'' [navigate1] (race4\<lparr>clock := 10\<rparr>) of
        (a, s) \<Rightarrow> begin_command ''k1'' a 1 0 navigate1 (enter_execution ''s1'' a s))"

definition race6 :: SocketController where
  "race6 = snd (create_execution ''e2'' ''s1'' ''click login'' [click1] (race5\<lparr>clock := 12\<rparr>))"

text \<open>
  A reset while a command is in flight, then a new request: \<open>reset_in_flight\<close> is \<open>in_flight\<close>
  after a \<^verbatim>\<open>reset_browser\<close> request has been handled, and \<open>second_running\<close> is that state
  after a further \<^verbatim>\<open>execute_command\<close> request (id \<open>e2\<close>) has been admitted, validated and
  parsed and has created its execution.
\<close>

definition reset_in_flight :: SocketController where
  "reset_in_flight = handleResetBrowser ''k1'' ''s1'' (Resolved 11 ()) in_flight"

definition second_running :: SocketController where
  "second_running =
     snd (create_execution ''e2'' ''s1'' ''click login'' [click1]
            ((call_parser ''click login'' (Resolved 13 ''png'')
                (start_parsing ''k1''
                   (snd (validateCommandInput ''click login'' (Resolved 12 \<lparr>safe = True, reasons = []\<rparr>)
                           reset_in_flight))))\<lparr>clock := 14\<rparr>))"

section \<open>Properties of the rate limiter\<close>








section \<open>Properties of disconnect handling\<close>

lemma cancel_executions_frame:
  "clientSessions (cancel_executions sid q s) = clientSessions s \<and>
   browserInstances (cancel_executions sid q s) = browserInstances s \<and>
   connectionStats (cancel_executions sid q s) = connectionStats s \<and>
   trace (cancel_executions sid q s) = trace s \<and>
   clock (cancel_executions sid q s) = clock s \<and>
   sessionTimeout (cancel_executions sid q s) = sessionTimeout s \<and>
   length (executions (cancel_executions sid q s)) = length (executions s)"
  by (induction sid q s rule: cancel_executions.induct) (simp_all add: upd_execution_def)

lemma upd_status_sessionId:
  "ex_sessionId ((executions (upd_execution a (\<lambda>e. e\<lparr>ex_status := st\<rparr>) s)) ! b) =
   ex_sessionId (executions s ! b)"
  by (cases "a < length (executions s)"; cases "a = b")
     (simp_all add: upd_execution_def list_update_beyond)

lemma cancel_executions_sessionId:
  "ex_sessionId (executions (cancel_executions sid q s) ! b) = ex_sessionId (executions s ! b)"
proof (induction sid q s rule: cancel_executions.induct)
  case (1 sessionId s)
  then show ?case by simp
next
  case (2 sessionId executionId a rest s)
  then show ?case
    using upd_status_sessionId[of a Cancelled s b] by (simp add: upd_execution_def)
qed

lemma cancel_executions_noop:
  "list_all (\<lambda>e. ex_sessionId (executions s ! snd e) \<noteq> sid) q \<Longrightarrow> cancel_executions sid q s = s"
  by (induction sid q s rule: cancel_executions.induct) simp_all

lemma cancel_executions_queue:
  "executionQueue (cancel_executions sid q s) =
   filter (\<lambda>e. fst e \<notin> hit_ids sid q s) (executionQueue s)"
proof (induction sid q s rule: cancel_executions.induct)
  case (1 sessionId s)
  then show ?case by (simp add: hit_ids_def)
next
  case (2 sessionId executionId a rest s)
  let ?s1 = "(upd_execution a (\<lambda>e. e\<lparr>ex_status := Cancelled\<rparr>) s)
               \<lparr>executionQueue := AList.delete executionId (executionQueue s)\<rparr>"
  have sid1: "\<And>b. ex_sessionId (executions ?s1 ! b) = ex_sessionId (executions s ! b)"
    using upd_status_sessionId[of a Cancelled s] by (simp add: upd_execution_def)
  have h1: "hit_ids sessionId rest ?s1 = hit_ids sessionId rest s"
    unfolding hit_ids_def using sid1 by simp
  show ?case
  proof (cases "ex_sessionId (executions s ! a) = sessionId")
    case True
    have "hit_ids sessionId ((executionId, a) # rest) s = insert executionId (hit_ids sessionId rest s)"
      using True by (simp add: hit_ids_def)
    then show ?thesis using 2 True h1
      by (auto simp: AList.delete_eq intro!: filter_cong)
  next
    case False
    have "hit_ids sessionId ((executionId, a) # rest) s = hit_ids sessionId rest s"
      using False by (simp add: hit_ids_def)
    then show ?thesis using 2 False by simp
  qed
qed


lemma cancel_executions_keeps_cancelled:
  "a < length (executions s) \<Longrightarrow> ex_status (executions s ! a) = Cancelled \<Longrightarrow>
   ex_status (executions (cancel_executions sid q s) ! a) = Cancelled"
proof (induction sid q s rule: cancel_executions.induct)
  case (1 sessionId s)
  then show ?case by simp
next
  case (2 sessionId executionId b rest s)
  then show ?case
    by (cases "a = b") (simp_all add: upd_execution_def)
qed

lemma cancel_executions_status:
  "(eid, a) \<in> set q \<Longrightarrow> a < length (executions s) \<Longrightarrow> ex_sessionId (executions s ! a) = sid \<Longrightarrow>
   ex_status (executions (cancel_executions sid q s) ! a) = Cancelled"
proof (induction sid q s rule: cancel_executions.induct)
  case (1 sessionId s)
  then show ?case by simp
next
  case (2 sessionId executionId b rest s)
  let ?s1 = "if ex_sessionId (executions s ! b) = sessionId
             then (upd_execution b (\<lambda>e. e\<lparr>ex_status := Cancelled\<rparr>) s)
                    \<lparr>executionQueue := AList.delete executionId (executionQueue s)\<rparr>
             else s"
  have len1: "a < length (executions ?s1)" using "2.prems" by (simp add: upd_execution_def)
  have sid1: "ex_sessionId (executions ?s1 ! a) = sessionId"
    using upd_status_sessionId[of b Cancelled s a] "2.prems" by (simp add: upd_execution_def)
  show ?case
  proof (cases "(eid, a) = (executionId, b)")
    case True
    then have "ex_status (executions ?s1 ! a) = Cancelled"
      using "2.prems" by (simp add: upd_execution_def)
    with len1 have "ex_status (executions (cancel_executions sessionId rest ?s1) ! a) = Cancelled"
      by (rule cancel_executions_keeps_cancelled)
    then show ?thesis by simp
  next
    case False
    with "2.prems" have mem: "(eid, a) \<in> set rest" by auto
    from "2.IH"[OF mem len1 sid1] show ?thesis by simp
  qed
qed

lemma cancel_executions_removed:
  "(eid, a) \<in> set q \<Longrightarrow> ex_sessionId (executions s ! a) = sid \<Longrightarrow>
   eid \<notin> fst ` set (executionQueue (cancel_executions sid q s))"
  by (force simp: cancel_executions_queue hit_ids_def)

lemma cancel_executions_twice:
  "cancel_executions sid (executionQueue (cancel_executions sid (executionQueue s) s))
     (cancel_executions sid (executionQueue s) s) = cancel_executions sid (executionQueue s) s"
proof (rule cancel_executions_noop)
  let ?s' = "cancel_executions sid (executionQueue s) s"
  show "list_all (\<lambda>e. ex_sessionId (executions ?s' ! snd e) \<noteq> sid) (executionQueue ?s')"
    unfolding list_all_iff
  proof
    fix e assume "e \<in> set (executionQueue ?s')"
    then have mem: "e \<in> set (executionQueue s)" and nohit: "fst e \<notin> hit_ids sid (executionQueue s) s"
      by (simp_all add: cancel_executions_queue)
    from mem nohit have "ex_sessionId (executions s ! snd e) \<noteq> sid"
      by (force simp: hit_ids_def)
    then show "ex_sessionId (executions ?s' ! snd e) \<noteq> sid"
      by (simp add: cancel_executions_sessionId)
  qed
qed

lemma map_of_delete_same: "map_of (AList.delete k al) k = None"
  by (simp add: AList.delete_conv')

lemma remove_frame:
  "executionQueue (remove_session sid s) = executionQueue s"
  "executions (remove_session sid s) = executions s"
  "trace (remove_session sid s) = trace s"
  "browserInstances (remove_session sid s) = browserInstances s"
  "executionQueue (remove_browser_instance sid s) = executionQueue s"
  "executions (remove_browser_instance sid s) = executions s"
  "clientSessions (remove_browser_instance sid s) = clientSessions s"
  "connectionStats (remove_browser_instance sid s) = connectionStats s"
  by (simp_all add: remove_session_def remove_browser_instance_def call_service_def
        split: option.splits)

lemma remove_absent:
  "map_of (clientSessions s) sid = None \<Longrightarrow> remove_session sid s = s"
  "map_of (browserInstances s) sid = None \<Longrightarrow> remove_browser_instance sid s = s"
  by (simp_all add: remove_session_def remove_browser_instance_def)

lemma remove_lookups:
  "map_of (clientSessions (remove_session sid s)) sid = None"
  "map_of (browserInstances (remove_browser_instance sid s)) sid = None"
  by (simp_all add: remove_session_def remove_browser_instance_def call_service_def
        map_of_delete_same split: option.splits)

lemma handleDisconnection_lookups:
  "map_of (clientSessions (handleDisconnection sid s)) sid = None \<and>
   map_of (browserInstances (handleDisconnection sid s)) sid = None"
  by (simp add: handleDisconnection_def Let_def cancel_executions_frame remove_frame remove_lookups)

lemma handleDisconnection_queue_part:
  "\<exists>s2. handleDisconnection sid s = cancel_executions sid (executionQueue s2) s2 \<and>
        executionQueue s2 = executionQueue s \<and> executions s2 = executions s"
  by (rule exI[where x = "remove_browser_instance sid (remove_session sid s)"])
     (simp add: handleDisconnection_def Let_def remove_frame)

lemma handleDisconnection_idempotent:
  "handleDisconnection sid (handleDisconnection sid s) = handleDisconnection sid s"
proof -
  let ?s' = "handleDisconnection sid s"
  obtain s2 where s2: "?s' = cancel_executions sid (executionQueue s2) s2"
    using handleDisconnection_queue_part by blast
  have "handleDisconnection sid ?s' = cancel_executions sid (executionQueue ?s') ?s'"
    using handleDisconnection_lookups[of sid s]
    by (simp add: handleDisconnection_def[of sid ?s'] Let_def remove_absent)
  also have "\<dots> = ?s'"
    unfolding s2 by (rule cancel_executions_twice)
  finally show ?thesis .
qed

text \<open>
  Claim C9. Disconnect handling run a second time for the same session id changes nothing:
  the controller after the second run is the controller after the first, so the
  active-connection counter is decremented at most once and the session, browser-instance
  and execution tables (and the execution objects) stay as the first run left them.
\<close>

theorem handleDisconnection_twice:
  "handleDisconnection sid (handleDisconnection sid s) = handleDisconnection sid s \<and>
   activeConnections (connectionStats (handleDisconnection sid (handleDisconnection sid s))) =
     activeConnections (connectionStats s) -
       (case map_of (clientSessions s) sid of None \<Rightarrow> 0 | Some session \<Rightarrow> 1)"
proof -
  have "activeConnections (connectionStats (handleDisconnection sid s)) =
     activeConnections (connectionStats s) -
       (case map_of (clientSessions s) sid of None \<Rightarrow> 0 | Some session \<Rightarrow> 1)"
    by (simp add: handleDisconnection_def Let_def cancel_executions_frame remove_frame
          remove_session_def split: option.splits)
  then show ?thesis by (simp add: handleDisconnection_idempotent)
qed

theorem handleDisconnection_twice_witness:
  "handleDisconnection ''s1'' (handleDisconnection ''s1'' in_flight) =
     handleDisconnection ''s1'' in_flight \<and>
   activeConnections (connectionStats (handleDisconnection ''s1'' (handleDisconnection ''s1'' in_flight))) = 0"
proof -
  have a: "map_of (clientSessions in_flight) ''s1'' = Some session1"
    and b: "activeConnections (connectionStats in_flight) = 1"
    by (simp_all add: in_flight_def connected_def)
  note t = handleDisconnection_twice[of "''s1''" in_flight]
  from t[THEN conjunct1] t[THEN conjunct2] show ?thesis
    by (simp add: a b)
qed

text \<open>
  Claim C5. When a session disconnects, every execution of that session that is in the queue
  (a running one in particular) has its status set to cancelled and is no longer in the queue
  when the handler returns; the handler emits no event (its only effect on the outside is the
  \<^verbatim>\<open>cleanup()\<close> call for the browser instance, if there is one), and it returns normally.
\<close>

theorem handleDisconnection_cancels_running:
  assumes "(executionId, a) \<in> set (executionQueue s)"
    and "a < length (executions s)"
    and "ex_sessionId (executions s ! a) = sessionId"
  shows "ex_status (executions (handleDisconnection sessionId s) ! a) = Cancelled \<and>
         executionId \<notin> fst ` set (executionQueue (handleDisconnection sessionId s)) \<and>
         map_of (executionQueue (handleDisconnection sessionId s)) executionId = None \<and>
         trace (handleDisconnection sessionId s) =
           trace s @ (case map_of (browserInstances s) sessionId of
                        None \<Rightarrow> [] | Some b \<Rightarrow> [Service cleanup])"
proof -
  obtain s2 where s2: "handleDisconnection sessionId s = cancel_executions sessionId (executionQueue s2) s2"
    and q2: "executionQueue s2 = executionQueue s" and e2: "executions s2 = executions s"
    using handleDisconnection_queue_part by blast
  have 1: "ex_status (executions (handleDisconnection sessionId s) ! a) = Cancelled"
    unfolding s2 using assms by (intro cancel_executions_status[where eid = executionId]) (simp_all add: q2 e2)
  have 2: "executionId \<notin> fst ` set (executionQueue (handleDisconnection sessionId s))"
    unfolding s2 using assms by (intro cancel_executions_removed[where a = a]) (simp_all add: q2 e2)
  from 2 have 3: "map_of (executionQueue (handleDisconnection sessionId s)) executionId = None"
    by (simp add: map_of_eq_None_iff)
  have 4: "trace (handleDisconnection sessionId s) =
           trace s @ (case map_of (browserInstances s) sessionId of
                        None \<Rightarrow> [] | Some b \<Rightarrow> [Service cleanup])"
    by (simp add: handleDisconnection_def Let_def cancel_executions_frame remove_frame
          remove_browser_instance_def call_service_def split: option.splits)
  from 1 2 3 4 show ?thesis by simp
qed

theorem handleDisconnection_cancels_running_witness:
  "(''e1'', 0) \<in> set (executionQueue in_flight) \<and>
   0 < length (executions in_flight) \<and>
   ex_sessionId (executions in_flight ! 0) = ''s1'' \<and>
   ex_status (executions in_flight ! 0) = Running \<and>
   ex_status (executions (handleDisconnection ''s1'' in_flight) ! 0) = Cancelled \<and>
   executionQueue (handleDisconnection ''s1'' in_flight) = [] \<and>
   trace (handleDisconnection ''s1'' in_flight) = trace in_flight @ [Service cleanup]"
proof -
  have h: "(''e1'', 0) \<in> set (executionQueue in_flight)" "0 < length (executions in_flight)"
    "ex_sessionId (executions in_flight ! 0) = ''s1''"
    by (simp_all add: in_flight_def execution1_def)
  have q: "executionQueue (handleDisconnection ''s1'' in_flight) = []"
    by (simp add: handleDisconnection_def Let_def remove_frame in_flight_def execution1_def
          upd_execution_def)
  have r: "ex_status (executions in_flight ! 0) = Running"
    and b: "map_of (browserInstances in_flight) ''s1'' =
            Some (instance1\<lparr>bi_status := Busy, bi_currentCommand := Some navigate1\<rparr>)"
    by (simp_all add: in_flight_def execution1_def connected_def)
  from handleDisconnection_cancels_running[OF h] h q r show ?thesis
    by (simp add: b)
qed

section \<open>Properties of the idle-session sweep and of reset\<close>

lemma sweep_sessions_frame:
  "browserInstances (sweep_sessions now timeout q s) = browserInstances s \<and>
   executionQueue (sweep_sessions now timeout q s) = executionQueue s \<and>
   executions (sweep_sessions now timeout q s) = executions s \<and>
   connectionStats (sweep_sessions now timeout q s) = connectionStats s \<and>
   trace (sweep_sessions now timeout q s) = trace s"
  by (induction now timeout q s rule: sweep_sessions.induct) simp_all

text \<open>
  Claim C4, at the failing input. The controller \<open>connected\<close> with the clock one
  millisecond past the session timeout: the idle sweep removes session \<open>s1\<close>, and the browser
  instance of \<open>s1\<close> is still in its table, no \<^verbatim>\<open>cleanup()\<close> has been called (the trace is
  unchanged) and the active-connection counter still counts the session. Disconnect handling
  on the same state removes both entries and calls \<^verbatim>\<open>cleanup()\<close>.
\<close>

theorem cleanupInactiveSessions_keeps_instance:
  "map_of (clientSessions (cleanupInactiveSessions (connected\<lparr>clock := 1800001\<rparr>))) ''s1'' = None \<and>
   map_of (browserInstances (cleanupInactiveSessions (connected\<lparr>clock := 1800001\<rparr>))) ''s1'' =
     Some instance1 \<and>
   trace (cleanupInactiveSessions (connected\<lparr>clock := 1800001\<rparr>)) = trace connected \<and>
   activeConnections (connectionStats (cleanupInactiveSessions (connected\<lparr>clock := 1800001\<rparr>))) = 1 \<and>
   map_of (clientSessions (handleDisconnection ''s1'' (connected\<lparr>clock := 1800001\<rparr>))) ''s1'' = None \<and>
   map_of (browserInstances (handleDisconnection ''s1'' (connected\<lparr>clock := 1800001\<rparr>))) ''s1'' = None \<and>
   trace (handleDisconnection ''s1'' (connected\<lparr>clock := 1800001\<rparr>)) =
     trace connected @ [Service cleanup]"
  by (simp add: cleanupInactiveSessions_def handleDisconnection_def remove_session_def
        remove_browser_instance_def call_service_def connected_def session1_def Let_def)

lemma map_of_map_entry_same:
  "map_of (AList.map_entry k f xs) k = map_option f (map_of xs k)"
  by (simp add: map_of_map_entry split: option.splits)

text \<open>
  What reset does. If the session has no browser instance, it emits one \<^verbatim>\<open>error\<close> event
  (\<^verbatim>\<open>Browser reset failed\<close>, details \<^verbatim>\<open>Browser instance not found\<close>) and changes nothing else.
  If it has one, the handler looks at nothing but its existence: whatever the status, it
  emits \<^verbatim>\<open>initializing\<close>, calls the browser service's reset and, when that resolves, leaves
  the instance \<open>Ready\<close> with URL, title and error cleared and emits \<^verbatim>\<open>ready\<close>; the execution
  queue and the execution objects are not touched.
\<close>

lemma handleResetBrowser_behaviour:
  "(map_of (browserInstances s) sessionId = None \<longrightarrow>
      handleResetBrowser socketId sessionId reset s =
        emit socketId (error_event ''Browser reset failed'' BROWSER_INIT_FAILED
                         (Some ''Browser instance not found'')) s) \<and>
   (map_of (browserInstances s) sessionId = Some b \<longrightarrow>
      map_of (browserInstances (handleResetBrowser socketId sessionId (Resolved t ()) s)) sessionId =
        Some (b\<lparr>bi_status := Ready, bi_currentUrl := None, bi_pageTitle := None,
                bi_lastActivity := t, bi_error := None\<rparr>) \<and>
      trace (handleResetBrowser socketId sessionId (Resolved t ()) s) =
        trace s @ [Emit socketId (browser_status Initializing), Service resetBrowser,
                   Emit socketId (browser_status Ready)] \<and>
      executionQueue (handleResetBrowser socketId sessionId (Resolved t ()) s) = executionQueue s \<and>
      executions (handleResetBrowser socketId sessionId (Resolved t ()) s) = executions s)"
  by (simp add: handleResetBrowser_def Let_def emit_def call_service_def upd_browser_def
        map_of_map_entry_same)

text \<open>
  Claim C8, at the failing input. In \<open>in_flight\<close> the instance of \<open>s1\<close> is busy and its
  execution \<open>e1\<close> is running and waits for the browser service; a further
  \<^verbatim>\<open>execute_command\<close> is refused there by the tests of \<open>admit\<close>. A reset request is not
  refused: no \<^verbatim>\<open>error\<close> event is emitted, the browser service's reset is called, and the
  instance ends \<open>Ready\<close> while \<open>e1\<close> is still running in the queue. Without a browser
  instance the reset does fail with the not-found error.
\<close>

theorem handleResetBrowser_while_busy:
  "map_option bi_status (map_of (browserInstances in_flight) ''s1'') = Some Busy \<and>
   map_of (executionQueue in_flight) ''e1'' = Some 0 \<and>
   ex_status (executions in_flight ! 0) = Running \<and>
   admit ''s1'' in_flight = Some (Error ''Browser not ready. Status: busy'') \<and>
   map_option bi_status
     (map_of (browserInstances (handleResetBrowser ''k1'' ''s1'' (Resolved 20 ()) in_flight)) ''s1'') =
     Some Ready \<and>
   trace (handleResetBrowser ''k1'' ''s1'' (Resolved 20 ()) in_flight) =
     trace in_flight @ [Emit ''k1'' (browser_status Initializing), Service resetBrowser,
                        Emit ''k1'' (browser_status Ready)] \<and>
   map_of (executionQueue (handleResetBrowser ''k1'' ''s1'' (Resolved 20 ()) in_flight)) ''e1'' = Some 0 \<and>
   ex_status (executions (handleResetBrowser ''k1'' ''s1'' (Resolved 20 ()) in_flight) ! 0) = Running \<and>
   trace (handleResetBrowser ''k1'' ''s1'' (Resolved 20 ()) (connected\<lparr>browserInstances := []\<rparr>)) =
     trace connected @ [Emit ''k1'' (error_event ''Browser reset failed'' BROWSER_INIT_FAILED
                                       (Some ''Browser instance not found''))]"
  by (simp add: handleResetBrowser_def Let_def emit_def call_service_def upd_browser_def
        in_flight_def execution1_def admit_def connected_def instance1_def)

section \<open>The trace of a command batch\<close>

lemma items_append [simp]: "items (xs @ ys) = items xs @ items ys"
  by (simp add: items_def)

lemma items_Nil [simp]: "items [] = []"
  by (simp add: items_def)

lemma items_Cons [simp]: "items (e # es) = item_of e @ items es"
  by (simp add: items_def)

lemmas basic_defs = emit_def call_service_def upd_browser_def upd_session_def upd_execution_def

lemma updateBrowserState_frame:
  "items (trace (updateBrowserState sid u ti s)) = items (trace s)"
  "filter is_result (trace (updateBrowserState sid u ti s)) = filter is_result (trace s)"
  "executions (updateBrowserState sid u ti s) = executions s"
  "executionQueue (updateBrowserState sid u ti s) = executionQueue s"
  "clientSessions (updateBrowserState sid u ti s) = clientSessions s"
  "connectionStats (updateBrowserState sid u ti s) = connectionStats s"
  by (simp_all add: updateBrowserState_def basic_defs Let_def split: option.splits settled.splits)

lemma run_command_result:
  "fst (run_command k sid a n i c so s) = (if step_fails c so then Some (step_error so) else None)"
  by (simp add: run_command_def finish_command_def step_fails_def step_error_def Let_def
        split: settled.splits)

lemma run_command_items:
  "items (trace (snd (run_command k sid a n i c so s))) = items (trace s) @ [P (progress_of i n), X c]"
  by (simp add: run_command_def finish_command_def begin_command_def Let_def basic_defs
        updateBrowserState_frame split: settled.splits)

lemma run_command_no_result:
  "filter is_result (trace (snd (run_command k sid a n i c so s))) = filter is_result (trace s)"
  by (simp add: run_command_def finish_command_def begin_command_def Let_def basic_defs
        updateBrowserState_frame split: settled.splits)

lemma run_command_frame:
  "executionQueue (snd (run_command k sid a n i c so s)) = executionQueue s"
  "clientSessions (snd (run_command k sid a n i c so s)) = clientSessions s"
  "connectionStats (snd (run_command k sid a n i c so s)) = connectionStats s"
  "length (executions (snd (run_command k sid a n i c so s))) = length (executions s)"
  by (simp_all add: run_command_def finish_command_def begin_command_def Let_def basic_defs
        updateBrowserState_frame split: settled.splits)

lemma run_command_results:
  "a < length (executions s) \<Longrightarrow>
   ex_results (executions (snd (run_command k sid a n i c so s)) ! a) =
     ex_results (executions s ! a) @ step_results so"
  by (simp add: run_command_def finish_command_def begin_command_def Let_def basic_defs
        updateBrowserState_frame step_results_def split: settled.splits)


lemma exec_loop_result:
  "fst (exec_loop k sid a n i cs steps s) =
   map_option (\<lambda>f. step_error (steps f)) (first_failure i cs steps)"
proof (induction cs arbitrary: i s)
  case Nil
  then show ?case by simp
next
  case (Cons c cs)
  obtain r s1 where rc: "run_command k sid a n i c (steps i) s = (r, s1)" by force
  from run_command_result[of k sid a n i c "steps i" s] rc
  have r: "r = (if step_fails c (steps i) then Some (step_error (steps i)) else None)" by simp
  show ?case using rc r Cons.IH[of "Suc i" s1] by simp
qed

lemma exec_loop_items:
  "items (trace (snd (exec_loop k sid a n i cs steps s))) = items (trace s) @ loop_items n i cs steps"
proof (induction cs arbitrary: i s)
  case Nil
  then show ?case by simp
next
  case (Cons c cs)
  obtain r s1 where rc: "run_command k sid a n i c (steps i) s = (r, s1)" by force
  from run_command_result[of k sid a n i c "steps i" s] rc
  have r: "r = (if step_fails c (steps i) then Some (step_error (steps i)) else None)" by simp
  from run_command_items[of k sid a n i c "steps i" s] rc
  have t: "items (trace s1) = items (trace s) @ [P (progress_of i n), X c]" by simp
  show ?case using rc r t Cons.IH[of "Suc i" s1] by simp
qed

lemma exec_loop_no_result:
  "filter is_result (trace (snd (exec_loop k sid a n i cs steps s))) = filter is_result (trace s)"
proof (induction cs arbitrary: i s)
  case Nil
  then show ?case by simp
next
  case (Cons c cs)
  obtain r s1 where rc: "run_command k sid a n i c (steps i) s = (r, s1)" by force
  from run_command_no_result[of k sid a n i c "steps i" s] rc
  have t: "filter is_result (trace s1) = filter is_result (trace s)" by simp
  show ?case using rc t Cons.IH[of "Suc i" s1] by (cases r) simp_all
qed

lemma exec_loop_frame:
  "executionQueue (snd (exec_loop k sid a n i cs steps s)) = executionQueue s \<and>
   clientSessions (snd (exec_loop k sid a n i cs steps s)) = clientSessions s \<and>
   connectionStats (snd (exec_loop k sid a n i cs steps s)) = connectionStats s \<and>
   length (executions (snd (exec_loop k sid a n i cs steps s))) = length (executions s)"
proof (induction cs arbitrary: i s)
  case Nil
  then show ?case by simp
next
  case (Cons c cs)
  obtain r s1 where rc: "run_command k sid a n i c (steps i) s = (r, s1)" by force
  from run_command_frame[of k sid a n i c "steps i" s] rc
  have t: "executionQueue s1 = executionQueue s" "clientSessions s1 = clientSessions s"
    "connectionStats s1 = connectionStats s" "length (executions s1) = length (executions s)"
    by simp_all
  show ?case using rc t Cons.IH[of "Suc i" s1] by (cases r) simp_all
qed

lemma exec_loop_results:
  "a < length (executions s) \<Longrightarrow>
   ex_results (executions (snd (exec_loop k sid a n i cs steps s)) ! a) =
     ex_results (executions s ! a) @ loop_results i cs steps"
proof (induction cs arbitrary: i s)
  case Nil
  then show ?case by simp
next
  case (Cons c cs)
  obtain r s1 where rc: "run_command k sid a n i c (steps i) s = (r, s1)" by force
  from run_command_result[of k sid a n i c "steps i" s] rc
  have r: "r = (if step_fails c (steps i) then Some (step_error (steps i)) else None)" by simp
  from run_command_frame(4)[of k sid a n i c "steps i" s] rc Cons.prems
  have len: "a < length (executions s1)" by simp
  from run_command_results[OF Cons.prems, of k sid n i c "steps i"] rc
  have t: "ex_results (executions s1 ! a) = ex_results (executions s ! a) @ step_results (steps i)"
    by simp
  show ?case using rc r t Cons.IH[OF len, of "Suc i"] by simp
qed


lemma enter_execution_frame:
  "trace (enter_execution sid a s) = trace s"
  "executions (enter_execution sid a s) = executions s"
  "executionQueue (enter_execution sid a s) = executionQueue s"
  by (simp_all add: enter_execution_def basic_defs)

lemma executeCommands_result:
  assumes "map_of (browserInstances s) sid = Some b"
    and "ex_commands (executions s ! a) = cs"
  shows "fst (executeCommands k sid a steps s) =
         map_option (\<lambda>f. step_error (steps f)) (first_failure 0 cs steps)"
proof -
  let ?l = "exec_loop k sid a (length cs) 0 cs steps (enter_execution sid a s)"
  obtain r s1 where l: "?l = (r, s1)" by force
  from exec_loop_result[of k sid a "length cs" 0 cs steps "enter_execution sid a s"] l
  have r: "r = map_option (\<lambda>f. step_error (steps f)) (first_failure 0 cs steps)" by simp
  have "fst (executeCommands k sid a steps s) = r" using assms l
    by (cases r) (simp_all add: executeCommands_def Let_def)
  with r show ?thesis by simp
qed

lemma executeCommands_items:
  assumes "map_of (browserInstances s) sid = Some b"
    and "a < length (executions s)"
    and "ex_commands (executions s ! a) = cs"
    and "ex_results (executions s ! a) = []"
  shows "items (trace (snd (executeCommands k sid a steps s))) =
         items (trace s) @ loop_items (length cs) 0 cs steps @
           (case first_failure 0 cs steps of
              None \<Rightarrow> [P 100, R True (Some (loop_results 0 cs steps)) None]
            | Some f \<Rightarrow> [])"
proof -
  let ?l = "exec_loop k sid a (length cs) 0 cs steps (enter_execution sid a s)"
  obtain r s1 where l: "?l = (r, s1)" by force
  from exec_loop_result[of k sid a "length cs" 0 cs steps "enter_execution sid a s"] l
  have r: "r = map_option (\<lambda>f. step_error (steps f)) (first_failure 0 cs steps)" by simp
  from exec_loop_items[of k sid a "length cs" 0 cs steps "enter_execution sid a s"] l
  have t: "items (trace s1) = items (trace s) @ loop_items (length cs) 0 cs steps"
    by (simp add: enter_execution_frame)
  from exec_loop_frame[of k sid a "length cs" 0 cs steps "enter_execution sid a s"] l assms(2)
  have len: "a < length (executions s1)" by (simp add: enter_execution_frame)
  from exec_loop_results[of a "enter_execution sid a s" k sid "length cs" 0 cs steps] l assms(2,4)
  have res: "ex_results (executions s1 ! a) = loop_results 0 cs steps"
    by (simp add: enter_execution_frame)
  have "items (trace (snd (executeCommands k sid a steps s))) =
        items (trace s1) @
          (case r of None \<Rightarrow> [P 100, R True (Some (ex_results (executions s1 ! a))) None]
           | Some e \<Rightarrow> [])"
    using assms(1,3) l len
    by (cases r) (simp_all add: executeCommands_def Let_def basic_defs)
  then show ?thesis
    by (cases "first_failure 0 cs steps") (simp_all add: r t res)
qed

lemma executeCommands_results:
  assumes "map_of (browserInstances s) sid = Some b"
    and "a < length (executions s)"
    and "ex_commands (executions s ! a) = cs"
    and "ex_results (executions s ! a) = []"
  shows "ex_results (executions (snd (executeCommands k sid a steps s)) ! a) = loop_results 0 cs steps"
proof -
  let ?l = "exec_loop k sid a (length cs) 0 cs steps (enter_execution sid a s)"
  obtain r s1 where l: "?l = (r, s1)" by force
  from exec_loop_frame[of k sid a "length cs" 0 cs steps "enter_execution sid a s"] l assms(2)
  have len: "a < length (executions s1)" by (simp add: enter_execution_frame)
  from exec_loop_results[of a "enter_execution sid a s" k sid "length cs" 0 cs steps] l assms(2,4)
  have res: "ex_results (executions s1 ! a) = loop_results 0 cs steps"
    by (simp add: enter_execution_frame)
  show ?thesis using assms(1,3) l len res
    by (cases r) (simp_all add: executeCommands_def Let_def basic_defs)
qed


lemma validateCommandInput_frame:
  "trace (snd (validateCommandInput u sec s)) = trace s"
  "executions (snd (validateCommandInput u sec s)) = executions s"
  "executionQueue (snd (validateCommandInput u sec s)) = executionQueue s"
  "browserInstances (snd (validateCommandInput u sec s)) = browserInstances s"
  by (simp_all add: validateCommandInput_def Let_def split: settled.splits)

lemma admit_None_browser:
  "admit sid s = None \<Longrightarrow> \<exists>b. map_of (browserInstances s) sid = Some b"
  by (simp add: admit_def split: option.splits if_splits)

lemma count_command_frame:
  "trace (count_command sid s) = trace s"
  "executions (count_command sid s) = executions s"
  by (simp_all add: count_command_def basic_defs)

lemma try_execute_executed:
  assumes adm: "admit sid s = None"
    and val: "isValid (fst (validateCommandInput userInput (ro_security ro) s))"
    and shot: "ro_screenshot ro = Resolved t1 png"
    and parse: "ro_parse ro = Resolved t2 pr" "pr_success pr" "pr_commands pr = Some cs"
  shows "fst (try_execute k sid eid (Data userInput) ro s) =
           map_option (\<lambda>f. step_error (ro_steps ro f)) (first_failure 0 cs (ro_steps ro))"
    and "items (trace (snd (try_execute k sid eid (Data userInput) ro s))) =
           items (trace s) @ P 10 # loop_items (length cs) 0 cs (ro_steps ro) @
             (case first_failure 0 cs (ro_steps ro) of
                None \<Rightarrow> [P 100, R True (Some (loop_results 0 cs (ro_steps ro))) None]
              | Some f \<Rightarrow> [])"
    and "ex_results (executions (snd (try_execute k sid eid (Data userInput) ro s)) ! length (executions s)) =
           loop_results 0 cs (ro_steps ro)"
proof -
  obtain vr s1 where v: "validateCommandInput userInput (ro_security ro) s = (vr, s1)" by force
  with val have vr: "isValid vr" by simp
  from v validateCommandInput_frame[of userInput "ro_security ro" s]
  have s1: "trace s1 = trace s" "executions s1 = executions s" "browserInstances s1 = browserInstances s"
    by simp_all
  define s3 where "s3 = (call_parser userInput (ro_screenshot ro) (start_parsing k s1))\<lparr>clock := t2\<rparr>"
  have s3: "items (trace s3) = items (trace s) @ [P 10]" "executions s3 = executions s"
    "browserInstances s3 = browserInstances s"
    by (simp_all add: s3_def call_parser_def start_parsing_def basic_defs s1)
  obtain a s4 where c: "create_execution eid sid userInput cs s3 = (a, s4)" by force
  then have a: "a = length (executions s)"
    and s4: "items (trace s4) = items (trace s) @ [P 10]" "browserInstances s4 = browserInstances s"
      "length (executions s4) = Suc (length (executions s))"
      "ex_commands (executions s4 ! length (executions s)) = cs"
      "ex_results (executions s4 ! length (executions s)) = []"
    by (auto simp: create_execution_def Let_def s3)
  from admit_None_browser[OF adm] s4(2) obtain b where b: "map_of (browserInstances s4) sid = Some b"
    by auto
  have lt: "length (executions s) < length (executions s4)" using s4(3) by simp
  note e1 = executeCommands_result[OF b s4(4), of k "ro_steps ro"]
  note e2 = executeCommands_items[OF b lt s4(4) s4(5), of k "ro_steps ro"]
  note e3 = executeCommands_results[OF b lt s4(4) s4(5), of k "ro_steps ro"]
  obtain r s5 where x: "executeCommands k sid (length (executions s)) (ro_steps ro) s4 = (r, s5)"
    by force
  have t: "try_execute k sid eid (Data userInput) ro s =
           (case r of Some e \<Rightarrow> (Some e, s5) | None \<Rightarrow> (None, count_command sid s5))"
    using adm v vr shot parse c a x
    by (simp add: try_execute_def Let_def s3_def split: option.splits)
  from e1 x have r: "r = map_option (\<lambda>f. step_error (ro_steps ro f)) (first_failure 0 cs (ro_steps ro))"
    by simp
  from e2 x have i: "items (trace s5) =
           items (trace s4) @ loop_items (length cs) 0 cs (ro_steps ro) @
             (case first_failure 0 cs (ro_steps ro) of
                None \<Rightarrow> [P 100, R True (Some (loop_results 0 cs (ro_steps ro))) None]
              | Some f \<Rightarrow> [])" by simp
  from e3 x have res: "ex_results (executions s5 ! length (executions s)) = loop_results 0 cs (ro_steps ro)"
    by simp
  have f: "fst (try_execute k sid eid (Data userInput) ro s) = r"
    and sn: "trace (snd (try_execute k sid eid (Data userInput) ro s)) = trace s5"
    and ex: "executions (snd (try_execute k sid eid (Data userInput) ro s)) = executions s5"
    by (cases r; simp add: t count_command_frame)+
  from f r show "fst (try_execute k sid eid (Data userInput) ro s) =
           map_option (\<lambda>f. step_error (ro_steps ro f)) (first_failure 0 cs (ro_steps ro))"
    by simp
  from sn i show "items (trace (snd (try_execute k sid eid (Data userInput) ro s))) =
           items (trace s) @ P 10 # loop_items (length cs) 0 cs (ro_steps ro) @
             (case first_failure 0 cs (ro_steps ro) of
                None \<Rightarrow> [P 100, R True (Some (loop_results 0 cs (ro_steps ro))) None]
              | Some f \<Rightarrow> [])"
    by (simp add: s4)
  from ex res show "ex_results (executions (snd (try_execute k sid eid (Data userInput) ro s)) ! length (executions s)) =
           loop_results 0 cs (ro_steps ro)"
    by simp
qed

lemma handleExecuteCommand_executed:
  assumes adm: "admit sid s = None"
    and val: "isValid (fst (validateCommandInput userInput (ro_security ro) s))"
    and shot: "ro_screenshot ro = Resolved t1 png"
    and parse: "ro_parse ro = Resolved t2 pr" "pr_success pr" "pr_commands pr = Some cs"
  shows "items (trace (snd (handleExecuteCommand k sid eid (Data userInput) ro s))) =
           items (trace s) @ P 10 # loop_items (length cs) 0 cs (ro_steps ro) @
             (case first_failure 0 cs (ro_steps ro) of
                None \<Rightarrow> [P 100, R True (Some (loop_results 0 cs (ro_steps ro))) None]
              | Some f \<Rightarrow> [R False None
                   (Some (message_or ''Command execution failed'' (step_error (ro_steps ro f))))])"
    and "ex_results (executions (snd (handleExecuteCommand k sid eid (Data userInput) ro s)) ! length (executions s)) =
           loop_results 0 cs (ro_steps ro)"
proof -
  obtain r s1 where t: "try_execute k sid eid (Data userInput) ro s = (r, s1)" by force
  note e = try_execute_executed[OF assms, of k eid]
  from e(1) t have r: "r = map_option (\<lambda>f. step_error (ro_steps ro f)) (first_failure 0 cs (ro_steps ro))"
    by simp
  from e(2) t have i: "items (trace s1) =
           items (trace s) @ P 10 # loop_items (length cs) 0 cs (ro_steps ro) @
             (case first_failure 0 cs (ro_steps ro) of
                None \<Rightarrow> [P 100, R True (Some (loop_results 0 cs (ro_steps ro))) None]
              | Some f \<Rightarrow> [])" by simp
  from e(3) t have x: "ex_results (executions s1 ! length (executions s)) = loop_results 0 cs (ro_steps ro)"
    by simp
  have tr: "items (trace (snd (handleExecuteCommand k sid eid (Data userInput) ro s))) =
            items (trace s1) @
              (case r of None \<Rightarrow> []
               | Some e \<Rightarrow> [R False None (Some (message_or ''Command execution failed'' e))])"
    and ex: "executions (snd (handleExecuteCommand k sid eid (Data userInput) ro s)) = executions s1"
    using t by (cases r; simp add: handleExecuteCommand_def Let_def basic_defs)+
  from tr show "items (trace (snd (handleExecuteCommand k sid eid (Data userInput) ro s))) =
           items (trace s) @ P 10 # loop_items (length cs) 0 cs (ro_steps ro) @
             (case first_failure 0 cs (ro_steps ro) of
                None \<Rightarrow> [P 100, R True (Some (loop_results 0 cs (ro_steps ro))) None]
              | Some f \<Rightarrow> [R False None
                   (Some (message_or ''Command execution failed'' (step_error (ro_steps ro f))))])"
    by (cases "first_failure 0 cs (ro_steps ro)") (simp_all add: r i)
  from ex x show "ex_results (executions (snd (handleExecuteCommand k sid eid (Data userInput) ro s)) ! length (executions s)) =
           loop_results 0 cs (ro_steps ro)"
    by simp
qed


lemma map_upt_Suc_shift: "map g [0..<Suc m] = g 0 # map (\<lambda>j. g (Suc j)) [0..<m]"
  by (simp add: upt_rec[of 0] map_Suc_upt[symmetric] del: upt_Suc)

lemma fails_at_closed:
  assumes "f < length cs"
    and "\<forall>j<f. \<not> step_fails (cs ! j) (steps (i + j))"
    and "step_fails (cs ! f) (steps (i + f))"
  shows "first_failure i cs steps = Some (i + f) \<and>
         loop_items n i cs steps =
           concat (map (\<lambda>j. [P (progress_of (i + j) n), X (cs ! j)]) [0..<Suc f]) \<and>
         loop_results i cs steps = concat (map (\<lambda>j. step_results (steps (i + j))) [0..<Suc f])"
  using assms
proof (induction cs arbitrary: i f)
  case Nil
  then show ?case by simp
next
  case (Cons c cs)
  show ?case
  proof (cases f)
    case 0
    with Cons.prems show ?thesis by simp
  next
    case (Suc f')
    with Cons.prems have ok: "\<not> step_fails c (steps i)" by force
    from Suc Cons.prems have 1: "f' < length cs" by simp
    from Suc Cons.prems have 2: "\<forall>j<f'. \<not> step_fails (cs ! j) (steps (Suc i + j))" by force
    from Suc Cons.prems have 3: "step_fails (cs ! f') (steps (Suc i + f'))" by simp
    from Cons.IH[OF 1 2 3] ok Suc show ?thesis
      by (simp add: map_upt_Suc_shift[of _ "Suc f'"] del: upt_Suc)
  qed
qed

lemma all_ok_closed:
  assumes "\<forall>j<length cs. \<not> step_fails (cs ! j) (steps (i + j))"
  shows "first_failure i cs steps = None \<and>
         loop_items n i cs steps =
           concat (map (\<lambda>j. [P (progress_of (i + j) n), X (cs ! j)]) [0..<length cs]) \<and>
         loop_results i cs steps = concat (map (\<lambda>j. step_results (steps (i + j))) [0..<length cs])"
  using assms
proof (induction cs arbitrary: i)
  case Nil
  then show ?case by simp
next
  case (Cons c cs)
  from Cons.prems have ok: "\<not> step_fails c (steps i)" by force
  from Cons.prems have 2: "\<forall>j<length cs. \<not> step_fails (cs ! j) (steps (Suc i + j))" by force
  from Cons.IH[OF 2] ok show ?case
    by (simp add: map_upt_Suc_shift[of _ "length cs"] del: upt_Suc)
qed

lemma ok_step_results:
  "\<not> step_fails c so \<Longrightarrow> \<exists>r. step_results so = [r] \<and> br_success r"
  by (auto simp: step_fails_def step_results_def split: settled.splits if_splits)

lemma ok_results_prefix:
  assumes "\<forall>j<f. \<not> step_fails (cs ! j) (steps j)"
  shows "length (concat (map (\<lambda>j. step_results (steps j)) [0..<f])) = f \<and>
         list_all br_success (concat (map (\<lambda>j. step_results (steps j)) [0..<f]))"
  using assms
proof (induction f)
  case 0
  then show ?case by simp
next
  case (Suc f)
  then have "\<not> step_fails (cs ! f) (steps f)" by simp
  from ok_step_results[OF this] obtain r where "step_results (steps f) = [r]" "br_success r" by blast
  with Suc show ?case by simp
qed

lemma try_execute_cases:
  "(\<exists>e s1. try_execute k sid eid d ro s = (Some e, s1) \<and>
            filter is_result (trace s1) = filter is_result (trace s) \<and>
            (items (trace s1) = items (trace s) \<or> items (trace s1) = items (trace s) @ [P 10])) \<or>
   (\<exists>a s4. try_execute k sid eid d ro s =
              (case executeCommands k sid a (ro_steps ro) s4 of
                 (Some e, s5) \<Rightarrow> (Some e, s5)
               | (None, s5) \<Rightarrow> (None, count_command sid s5)) \<and>
            filter is_result (trace s4) = filter is_result (trace s) \<and>
            items (trace s4) = items (trace s) @ [P 10])"
proof (cases d)
  case NoData
  then have "\<exists>e. try_execute k sid eid d ro s = (Some e, s)"
    by (simp add: try_execute_def split: option.splits)
  then show ?thesis by auto
next
  case (Data u)
  have "(\<exists>e s1. try_execute k sid eid (Data u) ro s = (Some e, s1) \<and>
            filter is_result (trace s1) = filter is_result (trace s) \<and>
            (items (trace s1) = items (trace s) \<or> items (trace s1) = items (trace s) @ [P 10])) \<or>
   (\<exists>a s4. try_execute k sid eid (Data u) ro s =
              (case executeCommands k sid a (ro_steps ro) s4 of
                 (Some e, s5) \<Rightarrow> (Some e, s5)
               | (None, s5) \<Rightarrow> (None, count_command sid s5)) \<and>
            filter is_result (trace s4) = filter is_result (trace s) \<and>
            items (trace s4) = items (trace s) @ [P 10])" (is ?goal)
  proof -
  obtain vr s1 where v: "validateCommandInput u (ro_security ro) s = (vr, s1)" by force
  from v validateCommandInput_frame(1)[of u "ro_security ro" s]
  have s1: "trace s1 = trace s" by simp
  show ?goal
  proof (cases "admit sid s")
    case (Some e)
    then show ?goal by (simp add: try_execute_def)
  next
    case None
    note adm = None
    show ?goal
    proof (cases "isValid vr")
      case False
      then show ?goal using adm v s1 by (simp add: try_execute_def)
    next
      case True
      note valid = True
      show ?goal
      proof (cases "ro_screenshot ro")
        case (Rejected t e)
        then show ?goal using adm v valid s1
          by (simp add: try_execute_def Let_def start_parsing_def basic_defs)
      next
        case (Resolved t png)
        note shot = Resolved
        define s3 where "s3 = (call_parser u (ro_screenshot ro) (start_parsing k s1))
                                \<lparr>clock := settled_at (ro_parse ro)\<rparr>"
        have s3: "filter is_result (trace s3) = filter is_result (trace s)"
          "items (trace s3) = items (trace s) @ [P 10]"
          by (simp_all add: s3_def call_parser_def start_parsing_def basic_defs s1)
        show ?goal
        proof (cases "ro_parse ro")
          case (Rejected t' e)
          then show ?goal using adm v valid shot s3
            by (simp add: try_execute_def Let_def s3_def)
        next
          case (Resolved t' pr)
          note parse = Resolved
          show ?goal
          proof (cases "pr_commands pr")
            case None
            then show ?goal using adm v valid shot parse s3
              by (simp add: try_execute_def Let_def s3_def)
          next
            case (Some cs)
            show ?goal
            proof (cases "pr_success pr")
              case False
              then show ?goal using adm v valid shot parse Some s3
                by (simp add: try_execute_def Let_def s3_def)
            next
              case True
              obtain a s4 where c: "create_execution eid sid u cs s3 = (a, s4)" by force
              then have s4: "trace s4 = trace s3"
                by (auto simp: create_execution_def Let_def)
              have "try_execute k sid eid (Data u) ro s =
                    (case executeCommands k sid a (ro_steps ro) s4 of
                       (Some e, s5) \<Rightarrow> (Some e, s5)
                     | (None, s5) \<Rightarrow> (None, count_command sid s5))"
                using adm v valid shot parse Some True c
                by (simp add: try_execute_def Let_def s3_def split: option.splits)
              with s3 s4 have "\<exists>a s4. try_execute k sid eid (Data u) ro s =
                    (case executeCommands k sid a (ro_steps ro) s4 of
                       (Some e, s5) \<Rightarrow> (Some e, s5)
                     | (None, s5) \<Rightarrow> (None, count_command sid s5)) \<and>
                  filter is_result (trace s4) = filter is_result (trace s) \<and>
                  items (trace s4) = items (trace s) @ [P 10]"
                by (intro exI[of _ a] exI[of _ s4]) simp
              then show ?goal by (rule disjI2)
            qed
          qed
        qed
      qed
    qed
  qed
qed
  then show ?thesis by (simp add: Data)
qed

lemma percents_simps [simp]:
  "percents [] = []"
  "percents (P p # xs) = p # percents xs"
  "percents (X c # xs) = percents xs"
  "percents (R b d e # xs) = percents xs"
  "percents (xs @ ys) = percents xs @ percents ys"
  by (simp_all add: percents_def)

lemma progress_of_bounds: "i < n \<Longrightarrow> 20 \<le> progress_of i n \<and> progress_of i n \<le> 100"
proof -
  assume "i < n"
  then have "160 * (i + 1) + n < 81 * (2 * n)" by simp
  then have "(160 * (i + 1) + n) div (2 * n) < 81"
    using \<open>i < n\<close> by (simp add: div_less_iff_less_mult)
  then show ?thesis by (simp add: progress_of_def)
qed

lemma progress_of_mono: "progress_of i n \<le> progress_of (Suc i) n"
  by (simp add: progress_of_def div_le_mono)

lemma percents_loop_items_sorted:
  "i + length cs = n \<Longrightarrow>
   sorted (percents (loop_items n i cs steps)) \<and>
   list_all (\<lambda>p. progress_of i n \<le> p \<and> p \<le> 100) (percents (loop_items n i cs steps))"
proof (induction cs arbitrary: i)
  case Nil
  then show ?case by simp
next
  case (Cons c cs)
  then have lt: "i < n" and n: "Suc i + length cs = n" by simp_all
  from Cons.IH[OF n, of] have ih: "sorted (percents (loop_items n (Suc i) cs steps))"
    "list_all (\<lambda>p. progress_of (Suc i) n \<le> p \<and> p \<le> 100) (percents (loop_items n (Suc i) cs steps))"
    by simp_all
  from ih(2) progress_of_mono[of i n]
  have ge: "list_all (\<lambda>p. progress_of i n \<le> p \<and> p \<le> 100) (percents (loop_items n (Suc i) cs steps))"
    by (auto simp: list_all_iff)
  from progress_of_bounds[OF lt] ih(1) ge show ?case
    by (auto simp: list_all_iff)
qed

lemma executeCommands_percents:
  "\<exists>ps. percents (items (trace (snd (executeCommands k sid a steps s)))) =
          percents (items (trace s)) @ ps \<and>
        sorted ps \<and> list_all (\<lambda>p. 20 \<le> p \<and> p \<le> 100) ps"
proof (cases "map_of (browserInstances s) sid")
  case None
  then show ?thesis by (simp add: executeCommands_def)
next
  case (Some b)
  define cs where "cs = ex_commands (executions s ! a)"
  let ?l = "exec_loop k sid a (length cs) 0 cs steps (enter_execution sid a s)"
  obtain r s1 where l: "?l = (r, s1)" by force
  from exec_loop_items[of k sid a "length cs" 0 cs steps "enter_execution sid a s"] l
  have t: "items (trace s1) = items (trace s) @ loop_items (length cs) 0 cs steps"
    by (simp add: enter_execution_frame)
  from percents_loop_items_sorted[of 0 cs "length cs" steps]
  have srt: "sorted (percents (loop_items (length cs) 0 cs steps))"
    and bnd: "list_all (\<lambda>p. progress_of 0 (length cs) \<le> p \<and> p \<le> 100)
                (percents (loop_items (length cs) 0 cs steps))" by simp_all
  have b20: "list_all (\<lambda>p. 20 \<le> p \<and> p \<le> 100) (percents (loop_items (length cs) 0 cs steps))"
    using bnd by (auto simp: list_all_iff progress_of_def)
  have "percents (items (trace (snd (executeCommands k sid a steps s)))) =
        percents (items (trace s1)) @ (case r of None \<Rightarrow> [100] | Some e \<Rightarrow> [])"
    using Some l by (cases r) (simp_all add: executeCommands_def Let_def basic_defs cs_def)
  then have "percents (items (trace (snd (executeCommands k sid a steps s)))) =
        percents (items (trace s)) @
          (percents (loop_items (length cs) 0 cs steps) @ (case r of None \<Rightarrow> [100] | Some e \<Rightarrow> []))"
    by (simp add: t)
  moreover have "sorted (percents (loop_items (length cs) 0 cs steps) @ (case r of None \<Rightarrow> [100] | Some e \<Rightarrow> []))"
    using srt b20 by (cases r) (auto simp: sorted_append list_all_iff)
  moreover have "list_all (\<lambda>p. 20 \<le> p \<and> p \<le> 100)
       (percents (loop_items (length cs) 0 cs steps) @ (case r of None \<Rightarrow> [100] | Some e \<Rightarrow> []))"
    using b20 by (cases r) simp_all
  ultimately show ?thesis by blast
qed

lemma executeCommands_throw_no_result:
  "fst (executeCommands k sid a steps s) = Some e \<Longrightarrow>
   filter is_result (trace (snd (executeCommands k sid a steps s))) = filter is_result (trace s)"
proof (cases "map_of (browserInstances s) sid")
  case None
  then show ?thesis by (simp add: executeCommands_def)
next
  case (Some b)
  assume thr: "fst (executeCommands k sid a steps s) = Some e"
  define cs where "cs = ex_commands (executions s ! a)"
  let ?l = "exec_loop k sid a (length cs) 0 cs steps (enter_execution sid a s)"
  obtain r s1 where l: "?l = (r, s1)" by force
  from exec_loop_no_result[of k sid a "length cs" 0 cs steps "enter_execution sid a s"] l
  have t: "filter is_result (trace s1) = filter is_result (trace s)"
    by (simp add: enter_execution_frame)
  from thr Some l have "r = Some e"
    by (cases r) (simp_all add: executeCommands_def Let_def cs_def)
  then show ?thesis using Some l t
    by (simp add: executeCommands_def Let_def basic_defs cs_def)
qed

lemma executeCommands_return_result:
  "fst (executeCommands k sid a steps s) = None \<Longrightarrow>
   \<exists>r. cr_success r \<and>
       filter is_result (trace (snd (executeCommands k sid a steps s))) =
         filter is_result (trace s) @ [Emit k (command_result r)] \<and>
       last (trace (snd (executeCommands k sid a steps s))) = Emit k (command_result r)"
proof (cases "map_of (browserInstances s) sid")
  case None
  assume "fst (executeCommands k sid a steps s) = None"
  with None show ?thesis by (simp add: executeCommands_def)
next
  case (Some b)
  assume ret: "fst (executeCommands k sid a steps s) = None"
  define cs where "cs = ex_commands (executions s ! a)"
  let ?l = "exec_loop k sid a (length cs) 0 cs steps (enter_execution sid a s)"
  obtain r s1 where l: "?l = (r, s1)" by force
  from exec_loop_no_result[of k sid a "length cs" 0 cs steps "enter_execution sid a s"] l
  have t: "filter is_result (trace s1) = filter is_result (trace s)"
    by (simp add: enter_execution_frame)
  from ret Some l have "r = None"
    by (cases r) (simp_all add: executeCommands_def Let_def cs_def)
  then show ?thesis using Some l t
    by (simp add: executeCommands_def Let_def basic_defs cs_def)
qed


lemma handleExecuteCommand_trace:
  "trace (snd (handleExecuteCommand k sid eid d ro s)) =
     (case try_execute k sid eid d ro s of
        (None, s1) \<Rightarrow> trace s1
      | (Some e, s1) \<Rightarrow>
          (case d of
             NoData \<Rightarrow> trace s1
           | Data u \<Rightarrow>
               trace s1 @ [Emit k (command_result
                        \<lparr>cr_success = False, cr_data = None,
                         cr_error = Some (message_or ''Command execution failed'' e),
                         cr_executionTime = clock s1 - clock s\<rparr>)]))"
  by (simp add: handleExecuteCommand_def Let_def basic_defs
        split: prod.splits option.splits request_data.splits)

lemma handleExecuteCommand_rejects:
  "fst (handleExecuteCommand k sid eid d ro s) =
     (case d of NoData \<Rightarrow> Some type_error | Data u \<Rightarrow> None)"
proof (cases d)
  case NoData
  then have "\<exists>e. try_execute k sid eid d ro s = (Some e, s)"
    by (simp add: try_execute_def split: option.splits)
  then show ?thesis using NoData
    by (auto simp: handleExecuteCommand_def Let_def)
next
  case (Data u)
  then show ?thesis
    by (simp add: handleExecuteCommand_def Let_def split: prod.splits option.splits)
qed

lemma try_execute_throw_no_result:
  assumes "try_execute k sid eid d ro s = (Some e, s1)"
  shows "filter is_result (trace s1) = filter is_result (trace s)"
proof -
  consider (throws) e' s1' where "try_execute k sid eid d ro s = (Some e', s1')"
      "filter is_result (trace s1') = filter is_result (trace s)"
    | (executes) a s4 where "try_execute k sid eid d ro s =
              (case executeCommands k sid a (ro_steps ro) s4 of
                 (Some e, s5) \<Rightarrow> (Some e, s5)
               | (None, s5) \<Rightarrow> (None, count_command sid s5))"
      "filter is_result (trace s4) = filter is_result (trace s)"
    using try_execute_cases[of k sid eid d ro s] by blast
  then show ?thesis
  proof cases
    case throws
    with assms show ?thesis by simp
  next
    case executes
    obtain r s5 where x: "executeCommands k sid a (ro_steps ro) s4 = (r, s5)" by force
    from executes(1) x assms have r: "r = Some e" and s5: "s5 = s1" by (cases r; simp)+
    from executeCommands_throw_no_result[of k sid a "ro_steps ro" s4 e] x r s5 executes(2)
    show ?thesis by simp
  qed
qed

lemma try_execute_return_result:
  assumes "try_execute k sid eid d ro s = (None, s1)"
  shows "\<exists>r. cr_success r \<and>
             filter is_result (trace s1) = filter is_result (trace s) @ [Emit k (command_result r)] \<and>
             last (trace s1) = Emit k (command_result r)"
proof -
  consider (throws) e' s1' where "try_execute k sid eid d ro s = (Some e', s1')"
    | (executes) a s4 where "try_execute k sid eid d ro s =
              (case executeCommands k sid a (ro_steps ro) s4 of
                 (Some e, s5) \<Rightarrow> (Some e, s5)
               | (None, s5) \<Rightarrow> (None, count_command sid s5))"
      "filter is_result (trace s4) = filter is_result (trace s)"
    using try_execute_cases[of k sid eid d ro s] by blast
  then show ?thesis
  proof cases
    case throws
    with assms show ?thesis by simp
  next
    case executes
    obtain r s5 where x: "executeCommands k sid a (ro_steps ro) s4 = (r, s5)" by force
    from executes(1) x assms have r: "r = None" and s5: "s1 = count_command sid s5"
      by (cases r; simp)+
    from executeCommands_return_result[of k sid a "ro_steps ro" s4] x r executes(2)
    show ?thesis by (simp add: s5 count_command_frame)
  qed
qed

lemma try_execute_percents:
  "\<exists>ps. percents (items (trace (snd (try_execute k sid eid d ro s)))) =
          percents (items (trace s)) @ ps \<and>
        sorted ps \<and> list_all (\<lambda>p. 10 \<le> p \<and> p \<le> 100) ps"
proof -
  consider (throws) e s1 where "try_execute k sid eid d ro s = (Some e, s1)"
      "items (trace s1) = items (trace s) \<or> items (trace s1) = items (trace s) @ [P 10]"
    | (executes) a s4 where "try_execute k sid eid d ro s =
              (case executeCommands k sid a (ro_steps ro) s4 of
                 (Some e, s5) \<Rightarrow> (Some e, s5)
               | (None, s5) \<Rightarrow> (None, count_command sid s5))"
      "items (trace s4) = items (trace s) @ [P 10]"
    using try_execute_cases[of k sid eid d ro s] by blast
  then show ?thesis
  proof cases
    case throws
    from throws(2) have "percents (items (trace s1)) = percents (items (trace s)) @ [] \<or>
               percents (items (trace s1)) = percents (items (trace s)) @ [10]" by auto
    then show ?thesis
    proof
      assume "percents (items (trace s1)) = percents (items (trace s)) @ []"
      with throws(1) show ?thesis by (intro exI[of _ "[]"]) simp
    next
      assume "percents (items (trace s1)) = percents (items (trace s)) @ [10]"
      with throws(1) show ?thesis by (intro exI[of _ "[10]"]) simp
    qed
  next
    case executes
    obtain r s5 where x: "executeCommands k sid a (ro_steps ro) s4 = (r, s5)" by force
    from executes(1) x have tr: "trace (snd (try_execute k sid eid d ro s)) = trace s5"
      by (cases r) (simp_all add: count_command_frame)
    from executeCommands_percents[of k sid a "ro_steps ro" s4] x obtain ps where
      ps: "percents (items (trace s5)) = percents (items (trace s4)) @ ps" "sorted ps"
        "list_all (\<lambda>p. 20 \<le> p \<and> p \<le> 100) ps" by auto
    have 1: "percents (items (trace (snd (try_execute k sid eid d ro s)))) =
             percents (items (trace s)) @ (10 # ps)"
      by (simp add: tr ps(1) executes(2))
    have 2: "sorted (10 # ps)" using ps(2,3) by (auto simp: list_all_iff)
    have 3: "list_all (\<lambda>p. 10 \<le> p \<and> p \<le> 100) (10 # ps)"
      using ps(3) by (auto simp: list_all_iff)
    from 1 2 3 show ?thesis by blast
  qed
qed

lemma handleExecuteCommand_percents:
  "\<exists>ps. percents (items (trace (snd (handleExecuteCommand k sid eid d ro s)))) =
          percents (items (trace s)) @ ps \<and>
        sorted ps \<and> list_all (\<lambda>p. 10 \<le> p \<and> p \<le> 100) ps"
proof -
  have "percents (items (trace (snd (handleExecuteCommand k sid eid d ro s)))) =
        percents (items (trace (snd (try_execute k sid eid d ro s))))"
    by (simp add: handleExecuteCommand_trace split: prod.splits option.splits request_data.splits)
  with try_execute_percents[of k sid eid d ro s] show ?thesis by simp
qed

section \<open>Properties of command execution\<close>

lemmas sample_defs = connected_def session1_def instance1_def navigate1_def click1_def type1_def
  ok_response_def failed_response_def ok_step_def failing_step_def oracle_click_fails_def
  oracle_all_ok_def

lemmas handler_defs = handleExecuteCommand_def try_execute_def admit_def validateCommandInput_def
  start_parsing_def call_parser_def create_execution_def executeCommands_def enter_execution_def
  run_command_def begin_command_def finish_command_def updateBrowserState_def count_command_def
  nth_opt_def progress_of_def Let_def emit_def call_service_def upd_browser_def upd_session_def
  upd_execution_def

text \<open>
  Claim C1, as amended. A request that is admitted, valid and parsed into the commands \<open>cs\<close>,
  whose commands before index \<open>f\<close> succeed and whose command at index \<open>f\<close> fails (step
  \<open>k = f + 1\<close>): the handler shows, after the parsing event, the progress event and the call of
  each of the commands \<open>0 .. f\<close> and of no later command, and then exactly one
  \<^verbatim>\<open>command_result\<close>, which has \<^verbatim>\<open>success: false\<close>, the failing step's error message and no data.
  The \<open>f\<close> successful results, followed by the failing step's result if the browser service
  returned one, are in \<^verbatim>\<open>execution.results\<close>; they are not sent to the client.
\<close>

theorem failed_batch_result:
  assumes "admit sessionId s = None"
    and "isValid (fst (validateCommandInput userInput (ro_security ro) s))"
    and "ro_screenshot ro = Resolved t1 png"
    and "ro_parse ro = Resolved t2 pr" and "pr_success pr" and "pr_commands pr = Some cs"
    and "f < length cs"
    and "\<forall>j<f. \<not> step_fails (cs ! j) (ro_steps ro j)"
    and "step_fails (cs ! f) (ro_steps ro f)"
  shows "items (trace (snd (handleExecuteCommand socketId sessionId executionId (Data userInput) ro s))) =
           items (trace s) @
             P 10 # concat (map (\<lambda>j. [P (progress_of j (length cs)), X (cs ! j)]) [0..<Suc f]) @
             [R False None (Some (message_or ''Command execution failed'' (step_error (ro_steps ro f))))] \<and>
         ex_results (executions (snd (handleExecuteCommand socketId sessionId executionId (Data userInput) ro s))
                       ! length (executions s)) =
           concat (map (\<lambda>j. step_results (ro_steps ro j)) [0..<f]) @ step_results (ro_steps ro f) \<and>
         length (concat (map (\<lambda>j. step_results (ro_steps ro j)) [0..<f])) = f \<and>
         list_all br_success (concat (map (\<lambda>j. step_results (ro_steps ro j)) [0..<f]))"
proof -
  from assms(8) have ok: "\<forall>j<f. \<not> step_fails (cs ! j) (ro_steps ro (0 + j))" by simp
  from assms(9) have bad: "step_fails (cs ! f) (ro_steps ro (0 + f))" by simp
  note c = fails_at_closed[OF assms(7) ok bad, of "length cs"]
  note h = handleExecuteCommand_executed[OF assms(1-6), of socketId executionId]
  note p = ok_results_prefix[OF assms(8)]
  from c h p show ?thesis by simp
qed

text \<open>Witness: navigate, click, type, where click comes back with \<^verbatim>\<open>success: false\<close>
  (\<open>f = 1\<close>, step 2).\<close>

theorem failed_batch_result_witness:
  "admit ''s1'' connected = None \<and>
   isValid (fst (validateCommandInput ''log in'' (ro_security oracle_click_fails) connected)) \<and>
   \<not> step_fails navigate1 (ro_steps oracle_click_fails 0) \<and>
   step_fails click1 (ro_steps oracle_click_fails 1) \<and>
   items (trace (snd (handleExecuteCommand ''k1'' ''s1'' ''e1'' (Data ''log in'') oracle_click_fails connected))) =
     [P 10, P 47, X navigate1, P 73, X click1, R False None (Some ''Element not found'')] \<and>
   ex_results (executions (snd (handleExecuteCommand ''k1'' ''s1'' ''e1'' (Data ''log in'') oracle_click_fails connected)) ! 0) =
     [ok_response, failed_response]"
proof -
  have h1: "admit ''s1'' connected = None"
    by (simp add: admit_def connected_def instance1_def)
  have h2: "isValid (fst (validateCommandInput ''log in'' (ro_security oracle_click_fails) connected))"
    by (simp add: validateCommandInput_def oracle_click_fails_def Let_def)
  have h3: "ro_screenshot oracle_click_fails = Resolved 5 ''png''"
    by (simp add: oracle_click_fails_def)
  have h4: "ro_parse oracle_click_fails =
            Resolved 10 \<lparr>pr_success = True, pr_commands = Some [navigate1, click1, type1], pr_error = None\<rparr>"
    by (simp add: oracle_click_fails_def)
  have h5: "pr_success \<lparr>pr_success = True, pr_commands = Some [navigate1, click1, type1], pr_error = None\<rparr>"
    and h6: "pr_commands \<lparr>pr_success = True, pr_commands = Some [navigate1, click1, type1], pr_error = None\<rparr>
             = Some [navigate1, click1, type1]"
    and h7: "1 < length [navigate1, click1, type1]"
    by simp_all
  have ok0: "\<not> step_fails navigate1 (ro_steps oracle_click_fails 0)"
    by (simp add: step_fails_def oracle_click_fails_def ok_step_def ok_response_def)
  then have h8: "\<forall>j<1. \<not> step_fails ([navigate1, click1, type1] ! j) (ro_steps oracle_click_fails j)"
    by simp
  have bad1: "step_fails click1 (ro_steps oracle_click_fails 1)"
    by (simp add: step_fails_def oracle_click_fails_def failing_step_def ok_step_def failed_response_def)
  then have h9: "step_fails ([navigate1, click1, type1] ! 1) (ro_steps oracle_click_fails 1)"
    by simp
  have e: "step_error (ro_steps oracle_click_fails (Suc 0)) = Error ''Element not found''"
    "step_results (ro_steps oracle_click_fails 0) = [ok_response]"
    "step_results (ro_steps oracle_click_fails (Suc 0)) = [failed_response]"
    by (simp_all add: step_error_def step_results_def oracle_click_fails_def failing_step_def
          ok_step_def failed_response_def)
  have i0: "items (trace connected) = []" "length (executions connected) = 0"
    by (simp_all add: connected_def)
  note t = failed_batch_result[OF h1 h2 h3 h4 h5 h6 h7 h8 h9, of "''k1''" "''e1''"]
  from t[THEN conjunct1] t[THEN conjunct2, THEN conjunct1] h1 h2 ok0 bad1 show ?thesis
    by (simp add: e i0 progress_of_def upt_rec)
qed

text \<open>
  Counterexample to claim C1 as stated. In the same run the one \<^verbatim>\<open>command_result\<close> sent to the
  client carries the error and no data: the result of the successful navigate is not in it.
\<close>

theorem failed_batch_partial_results_counterexample:
  "items (trace (snd (handleExecuteCommand ''k1'' ''s1'' ''e1'' (Data ''log in'') oracle_click_fails connected))) =
     [P 10, P 47, X navigate1, P 73, X click1, R False None (Some ''Element not found'')] \<and>
   filter is_result (trace (snd (handleExecuteCommand ''k1'' ''s1'' ''e1'' (Data ''log in'') oracle_click_fails connected))) =
     [Emit ''k1'' (command_result \<lparr>cr_success = False, cr_data = None,
                                   cr_error = Some ''Element not found'', cr_executionTime = 30\<rparr>)]"
  by (simp add: handler_defs sample_defs)

text \<open>
  A request that carries a payload: whatever the state and however the collaborators settle,
  the promise resolves, and the handler adds exactly one \<^verbatim>\<open>command_result\<close> to the trace, on
  the requesting socket, as the last thing it emits. The result reports success exactly when
  the body of the \<^verbatim>\<open>try\<close> did not throw.
\<close>

lemma payload_request_one_result:
  "fst (handleExecuteCommand socketId sessionId executionId (Data userInput) ro s) = None \<and>
   (\<exists>r. filter is_result (trace (snd (handleExecuteCommand socketId sessionId executionId (Data userInput) ro s))) =
          filter is_result (trace s) @ [Emit socketId (command_result r)] \<and>
        last (trace (snd (handleExecuteCommand socketId sessionId executionId (Data userInput) ro s))) =
          Emit socketId (command_result r) \<and>
        cr_success r = (fst (try_execute socketId sessionId executionId (Data userInput) ro s) = None))"
proof -
  obtain x s1 where t: "try_execute socketId sessionId executionId (Data userInput) ro s = (x, s1)"
    by force
  have "\<exists>r. filter is_result (trace (snd (handleExecuteCommand socketId sessionId executionId (Data userInput) ro s))) =
          filter is_result (trace s) @ [Emit socketId (command_result r)] \<and>
        last (trace (snd (handleExecuteCommand socketId sessionId executionId (Data userInput) ro s))) =
          Emit socketId (command_result r) \<and>
        cr_success r = (fst (try_execute socketId sessionId executionId (Data userInput) ro s) = None)"
  proof (cases x)
    case None
    from try_execute_return_result[OF t[unfolded None]] obtain r where
      "cr_success r"
      "filter is_result (trace s1) = filter is_result (trace s) @ [Emit socketId (command_result r)]"
      "last (trace s1) = Emit socketId (command_result r)" by blast
    then show ?thesis using t None
      by (intro exI[of _ r]) (simp add: handleExecuteCommand_trace)
  next
    case (Some e)
    from try_execute_throw_no_result[OF t[unfolded Some]]
    have "filter is_result (trace s1) = filter is_result (trace s)" .
    then show ?thesis using t Some
      by (simp add: handleExecuteCommand_trace)
  qed
  then show ?thesis by (simp add: handleExecuteCommand_rejects)
qed

text \<open>
  A request without a payload: the returned promise rejects with the \<^verbatim>\<open>TypeError\<close> and the
  handler emits nothing, whatever the state.
\<close>

lemma no_payload_request_rejects:
  "fst (handleExecuteCommand socketId sessionId executionId NoData ro s) = Some type_error \<and>
   trace (snd (handleExecuteCommand socketId sessionId executionId NoData ro s)) = trace s"
proof -
  have "\<exists>e. try_execute socketId sessionId executionId NoData ro s = (Some e, s)"
    by (simp add: try_execute_def split: option.splits)
  then show ?thesis
    by (auto simp: handleExecuteCommand_def Let_def)
qed

text \<open>
  Claim C3, at the failing input. The client of session \<open>s1\<close> sends \<^verbatim>\<open>execute_command\<close> with
  no payload to the controller \<open>connected\<close>: the \<^verbatim>\<open>try\<close> throws at \<^verbatim>\<open>data.userInput\<close>, the
  \<^verbatim>\<open>catch\<close> counts the failure and throws again at its own \<^verbatim>\<open>data.userInput\<close>, before the
  emit. The handler's promise rejects, and no \<^verbatim>\<open>command_result\<close> (no event at all) has been
  emitted. The same request with the payload \<^verbatim>\<open>{userInput: ''}\<close> resolves and gets its one
  failure result.
\<close>

theorem request_without_payload_throws:
  "fst (handleExecuteCommand ''k1'' ''s1'' ''e1'' NoData oracle_all_ok connected) = Some type_error \<and>
   filter is_result (trace (snd (handleExecuteCommand ''k1'' ''s1'' ''e1'' NoData oracle_all_ok connected))) = [] \<and>
   trace (snd (handleExecuteCommand ''k1'' ''s1'' ''e1'' NoData oracle_all_ok connected)) = trace connected \<and>
   failedCommands (connectionStats (snd (handleExecuteCommand ''k1'' ''s1'' ''e1'' NoData oracle_all_ok connected))) = 1 \<and>
   fst (handleExecuteCommand ''k1'' ''s1'' ''e1'' (Data []) oracle_all_ok connected) = None \<and>
   filter is_result (trace (snd (handleExecuteCommand ''k1'' ''s1'' ''e1'' (Data []) oracle_all_ok connected))) =
     [Emit ''k1'' (command_result \<lparr>cr_success = False, cr_data = None,
                                   cr_error = Some ''Invalid input format'', cr_executionTime = 0\<rparr>)]"
  by (simp add: handler_defs sample_defs type_error_def)

lemma progress_of_round:
  "0 < n \<Longrightarrow> int (progress_of i n) = round (80 * (real i + 1) / real n) + 20"
proof -
  assume n: "0 < n"
  have "80 * (real i + 1) / real n + 1 / 2 = real (160 * (i + 1) + n) / real (2 * n)"
    using n by (simp add: field_simps)
  then have "round (80 * (real i + 1) / real n) = \<lfloor>real (160 * (i + 1) + n) / real (2 * n)\<rfloor>"
    by (simp add: round_def)
  also have "\<dots> = int ((160 * (i + 1) + n) div (2 * n))"
    by (rule floor_divide_of_nat_eq)
  finally show ?thesis by (simp add: progress_of_def)
qed

text \<open>
  Claim C6, as amended. For every request (with or without a payload) the percentages of the progress events it emits
  are in non-decreasing order and lie between 10 and 100. Of a request that reaches execution
  with \<open>n\<close> commands that all succeed, the trace shows the parsing event with 10, then for
  each command \<open>i\<close> the event with \<open>progress_of i n\<close> followed by the call that executes
  command \<open>i\<close> (the event is emitted before the command runs, not after it), then the closing
  event with 100 and the result. \<open>progress_of i n\<close> is 20 plus 80 (i + 1) / n rounded to the
  nearest integer, a half upwards.
\<close>

theorem progress_sequence:
  "(\<exists>ps. percents (items (trace (snd (handleExecuteCommand socketId sessionId executionId data ro s)))) =
           percents (items (trace s)) @ ps \<and>
         sorted ps \<and> list_all (\<lambda>p. 10 \<le> p \<and> p \<le> 100) ps) \<and>
   (admit sessionId s = None \<and>
    isValid (fst (validateCommandInput userInput (ro_security ro) s)) \<and>
    ro_screenshot ro = Resolved t1 png \<and>
    ro_parse ro = Resolved t2 pr \<and> pr_success pr \<and> pr_commands pr = Some cs \<and>
    (\<forall>j<length cs. \<not> step_fails (cs ! j) (ro_steps ro j)) \<longrightarrow>
      items (trace (snd (handleExecuteCommand socketId sessionId executionId (Data userInput) ro s))) =
        items (trace s) @
          P 10 # concat (map (\<lambda>j. [P (progress_of j (length cs)), X (cs ! j)]) [0..<length cs]) @
          [P 100,
           R True (Some (concat (map (\<lambda>j. step_results (ro_steps ro j)) [0..<length cs]))) None]) \<and>
   (0 < n \<longrightarrow> int (progress_of i n) = round (80 * (real i + 1) / real n) + 20)"
proof (intro conjI impI)
  show "\<exists>ps. percents (items (trace (snd (handleExecuteCommand socketId sessionId executionId data ro s)))) =
           percents (items (trace s)) @ ps \<and>
         sorted ps \<and> list_all (\<lambda>p. 10 \<le> p \<and> p \<le> 100) ps"
    by (rule handleExecuteCommand_percents)
next
  assume h: "admit sessionId s = None \<and>
    isValid (fst (validateCommandInput userInput (ro_security ro) s)) \<and>
    ro_screenshot ro = Resolved t1 png \<and>
    ro_parse ro = Resolved t2 pr \<and> pr_success pr \<and> pr_commands pr = Some cs \<and>
    (\<forall>j<length cs. \<not> step_fails (cs ! j) (ro_steps ro j))"
  then have ok: "\<forall>j<length cs. \<not> step_fails (cs ! j) (ro_steps ro (0 + j))" by simp
  note c = all_ok_closed[OF ok, of "length cs"]
  from h have h1: "admit sessionId s = None"
    and h2: "isValid (fst (validateCommandInput userInput (ro_security ro) s))"
    and h3: "ro_screenshot ro = Resolved t1 png"
    and h4: "ro_parse ro = Resolved t2 pr" and h5: "pr_success pr" and h6: "pr_commands pr = Some cs"
    by simp_all
  note e = handleExecuteCommand_executed(1)[OF h1 h2 h3 h4 h5 h6, of socketId executionId]
  from c e show "items (trace (snd (handleExecuteCommand socketId sessionId executionId (Data userInput) ro s))) =
        items (trace s) @
          P 10 # concat (map (\<lambda>j. [P (progress_of j (length cs)), X (cs ! j)]) [0..<length cs]) @
          [P 100,
           R True (Some (concat (map (\<lambda>j. step_results (ro_steps ro j)) [0..<length cs]))) None]"
    by simp
next
  assume "0 < n"
  then show "int (progress_of i n) = round (80 * (real i + 1) / real n) + 20"
    by (rule progress_of_round)
qed

text \<open>Witness: navigate and click, both successful.\<close>

theorem progress_sequence_witness:
  "admit ''s1'' connected = None \<and>
   isValid (fst (validateCommandInput ''log in'' (ro_security oracle_all_ok) connected)) \<and>
   \<not> step_fails navigate1 (ro_steps oracle_all_ok 0) \<and>
   \<not> step_fails click1 (ro_steps oracle_all_ok 1) \<and>
   items (trace (snd (handleExecuteCommand ''k1'' ''s1'' ''e1'' (Data ''log in'') oracle_all_ok connected))) =
     [P 10, P 60, X navigate1, P 100, X click1, P 100, R True (Some [ok_response, ok_response]) None] \<and>
   int (progress_of 0 2) = round (80 * (real 0 + 1) / real 2) + 20"
proof -
  have h1: "admit ''s1'' connected = None"
    by (simp add: admit_def connected_def instance1_def)
  have h2: "isValid (fst (validateCommandInput ''log in'' (ro_security oracle_all_ok) connected))"
    by (simp add: validateCommandInput_def oracle_all_ok_def Let_def)
  have h3: "ro_screenshot oracle_all_ok = Resolved 5 ''png''"
    by (simp add: oracle_all_ok_def)
  have h4: "ro_parse oracle_all_ok =
            Resolved 10 \<lparr>pr_success = True, pr_commands = Some [navigate1, click1], pr_error = None\<rparr>"
    by (simp add: oracle_all_ok_def)
  have ok: "\<not> step_fails c (ro_steps oracle_all_ok j)" for c j
    by (simp add: step_fails_def oracle_all_ok_def ok_step_def ok_response_def)
  then have h7: "\<forall>j<length [navigate1, click1]. \<not> step_fails ([navigate1, click1] ! j) (ro_steps oracle_all_ok j)"
    by simp
  have e: "step_results (ro_steps oracle_all_ok j) = [ok_response]" for j
    by (simp add: step_results_def oracle_all_ok_def ok_step_def)
  have i0: "items (trace connected) = []"
    by (simp add: connected_def)
  note t = progress_sequence[where s = connected and sessionId = "''s1''" and socketId = "''k1''"
      and executionId = "''e1''" and userInput = "''log in''" and ro = oracle_all_ok
      and ?t1.0 = 5 and png = "''png''" and ?t2.0 = 10
      and pr = "\<lparr>pr_success = True, pr_commands = Some [navigate1, click1], pr_error = None\<rparr>"
      and cs = "[navigate1, click1]" and n = 2 and i = 0]
  from t[THEN conjunct2, THEN conjunct1] h1 h2 h3 h4 h7
  have "items (trace (snd (handleExecuteCommand ''k1'' ''s1'' ''e1'' (Data ''log in'') oracle_all_ok connected))) =
        [P 10, P 60, X navigate1, P 100, X click1, P 100, R True (Some [ok_response, ok_response]) None]"
    by (simp add: e i0 progress_of_def upt_rec)
  moreover from t[THEN conjunct2, THEN conjunct2]
  have "int (progress_of 0 2) = round (80 * (real 0 + 1) / real 2) + 20" by simp
  ultimately show ?thesis using h1 h2 ok by simp
qed

text \<open>
  Counterexample to claim C6 as stated. In the run of the witness the first progress event
  after the execution of command 0 reports 100, not \<open>20 + round (80 \<cdot> 1 / 2) = 60\<close>: the
  event with 60 was emitted before command 0 ran.
\<close>

theorem progress_after_command_counterexample:
  "items (trace (snd (handleExecuteCommand ''k1'' ''s1'' ''e1'' (Data ''log in'') oracle_all_ok connected))) =
     [P 10, P 60, X navigate1, P 100, X click1, P 100, R True (Some [ok_response, ok_response]) None] \<and>
   percent_after 0
     (items (trace (snd (handleExecuteCommand ''k1'' ''s1'' ''e1'' (Data ''log in'') oracle_all_ok connected)))) =
     Some 100 \<and>
   progress_of 0 2 = 60"
  by (simp add: handler_defs sample_defs percent_after_def)

text \<open>
  Claim C7, at the failing input. The batch navigate, click, type in which click fails: after
  the handler the browser instance has status \<open>ErrorStatus\<close> and its \<^verbatim>\<open>currentCommand\<close> is still
  the navigate command that \<^verbatim>\<open>executeCommands\<close> stored on entry. After the fully successful
  batch the status is \<open>Ready\<close> and \<^verbatim>\<open>currentCommand\<close> is cleared.
\<close>

theorem failed_execution_keeps_currentCommand:
  "map_option bi_status
     (map_of (browserInstances
        (snd (handleExecuteCommand ''k1'' ''s1'' ''e1'' (Data ''log in'') oracle_click_fails connected))) ''s1'') =
     Some ErrorStatus \<and>
   map_option bi_currentCommand
     (map_of (browserInstances
        (snd (handleExecuteCommand ''k1'' ''s1'' ''e1'' (Data ''log in'') oracle_click_fails connected))) ''s1'') =
     Some (Some navigate1) \<and>
   map_option bi_status
     (map_of (browserInstances
        (snd (handleExecuteCommand ''k1'' ''s1'' ''e1'' (Data ''log in'') oracle_all_ok connected))) ''s1'') =
     Some Ready \<and>
   map_option bi_currentCommand
     (map_of (browserInstances
        (snd (handleExecuteCommand ''k1'' ''s1'' ''e1'' (Data ''log in'') oracle_all_ok connected))) ''s1'') =
     Some None"
  by (simp add: handler_defs sample_defs)

text \<open>The sample state \<open>connected\<close> is the new controller after one connection, and
  \<open>in_flight\<close> is what request A's handler makes of \<open>connected\<close> up to its first
  \<^verbatim>\<open>await executeCommand\<close>.\<close>

lemma connected_reachable:
  "handleConnection ''k1'' ''s1'' ''10.1.1.1'' (Resolved 0 True) (Resolved 0 ())
     (new_controller 1800000) = connected"
  by (simp add: handleConnection_def initializeBrowserInstance_def new_controller_def Let_def
        emit_def upd_browser_def connected_def session1_def instance1_def)

lemma in_flight_reachable:
  "admit ''s1'' connected = None \<and>
   (case create_execution ''e1'' ''s1'' ''go to example.com'' [navigate1]
           ((call_parser ''go to example.com'' (Resolved 5 ''png'')
              (start_parsing ''k1''
                 (snd (validateCommandInput ''go to example.com'' security_ok connected))))
              \<lparr>clock := 10\<rparr>) of
      (a, s) \<Rightarrow> begin_command ''k1'' a 1 0 navigate1 (enter_execution ''s1'' a s)) = in_flight"
  by (simp add: handler_defs sample_defs in_flight_def execution1_def security_ok_def)

text \<open>
  Claim C2, at the failing inputs. First schedule: request B arrives while request A waits for
  its screenshot; the instance is still ready (A makes it busy only after parsing), so B passes
  the same tests and is not rejected; A then makes the instance busy and starts its first
  command, and when B's parser call settles the queue holds two running executions of session
  \<open>s1\<close>. Second schedule: while A's execution is running, a reset makes the instance ready
  again; the next request is admitted and creates a second running execution.
\<close>

theorem two_running_executions:
  "admit ''s1'' connected = None \<and>
   admit ''s1'' race1 = None \<and>
   map_option bi_status (map_of (browserInstances race5) ''s1'') = Some Busy \<and>
   executionQueue race6 = [(''e1'', 0), (''e2'', 1)] \<and>
   map ex_sessionId (executions race6) = [''s1'', ''s1''] \<and>
   map ex_status (executions race6) = [Running, Running] \<and>
   admit ''s1'' reset_in_flight = None \<and>
   executionQueue second_running = [(''e1'', 0), (''e2'', 1)] \<and>
   map ex_sessionId (executions second_running) = [''s1'', ''s1''] \<and>
   map ex_status (executions second_running) = [Running, Running]"
  by (simp add: race1_def race2_def race3_def race4_def race5_def race6_def reset_in_flight_def
        second_running_def
        in_flight_def execution1_def security_ok_def handleResetBrowser_def handler_defs sample_defs)

end
